theory Spec2Isabelle
  imports Complex_Main "HOL-Library.Word" "HOL-Library.AList"
begin

section \<open>JavaScript strings\<close>

text \<open>
  A JavaScript string is a sequence of UTF-16 code units. \<open>js\<close> turns an (ASCII)
  Isabelle literal into such a sequence, so that the literals of the source can be
  written as they stand there.
\<close>

type_synonym code_unit = "16 word"
type_synonym jsstring = "code_unit list"

definition js :: "string \<Rightarrow> jsstring" where
  "js s = map (\<lambda>c. of_nat (of_char c)) s"

text \<open>
  The class \<open>\s\<close> of a regular expression and the characters \<open>String.prototype.trim\<close>
  strips are the same set: ECMAScript's WhiteSpace (TAB, VT, FF, SP, NBSP, ZWNBSP and
  the Unicode space separators) and LineTerminator (LF, CR, LS, PS).
\<close>

definition is_ws :: "code_unit \<Rightarrow> bool" where
  "is_ws c \<longleftrightarrow>
     c = 0x0009 \<or> c = 0x000A \<or> c = 0x000B \<or> c = 0x000C \<or> c = 0x000D \<or> c = 0x0020 \<or>
     c = 0x00A0 \<or> c = 0x1680 \<or> (0x2000 \<le> c \<and> c \<le> 0x200A) \<or> c = 0x2028 \<or>
     c = 0x2029 \<or> c = 0x202F \<or> c = 0x205F \<or> c = 0x3000 \<or> c = 0xFEFF"

definition trim :: "jsstring \<Rightarrow> jsstring" where
  "trim s = rev (dropWhile is_ws (rev (dropWhile is_ws s)))"

text \<open>\<open>Array.prototype.join\<close> on an array of strings.\<close>

fun join :: "jsstring \<Rightarrow> jsstring list \<Rightarrow> jsstring" where
  "join sep [] = []"
| "join sep [x] = x"
| "join sep (x # y # ys) = x @ sep @ join sep (y # ys)"

section \<open>Regular expressions\<close>

text \<open>
  The two regular expressions of the source use character classes, concatenation and
  \<open>+\<close> only. \<open>re_test\<close> is \<open>RegExp.prototype.test\<close> for a pattern anchored
  by \<open>^\<close> and \<open>$\<close>: the whole string has to match. It is computed with derivatives.
\<close>

datatype regexp =
    Fail
  | Eps
  | Class "code_unit \<Rightarrow> bool"
  | Alt regexp regexp
  | Seq regexp regexp
  | Star regexp

definition OneOrMore :: "regexp \<Rightarrow> regexp" where
  "OneOrMore r = Seq r (Star r)"

fun nullable :: "regexp \<Rightarrow> bool" where
  "nullable Fail = False"
| "nullable Eps = True"
| "nullable (Class P) = False"
| "nullable (Alt r s) = (nullable r \<or> nullable s)"
| "nullable (Seq r s) = (nullable r \<and> nullable s)"
| "nullable (Star r) = True"

fun deriv :: "code_unit \<Rightarrow> regexp \<Rightarrow> regexp" where
  "deriv c Fail = Fail"
| "deriv c Eps = Fail"
| "deriv c (Class P) = (if P c then Eps else Fail)"
| "deriv c (Alt r s) = Alt (deriv c r) (deriv c s)"
| "deriv c (Seq r s) =
     (if nullable r then Alt (Seq (deriv c r) s) (deriv c s) else Seq (deriv c r) s)"
| "deriv c (Star r) = Seq (deriv c r) (Star r)"

fun re_test :: "regexp \<Rightarrow> jsstring \<Rightarrow> bool" where
  "re_test r [] = nullable r"
| "re_test r (c # cs) = re_test (deriv c r) cs"

section \<open>Email validation helper\<close>

text \<open>
  \<^verbatim>\<open>const isValidEmail = (email: string) => {
  return /^[^\s@]+@[^\s@]+\.[^\s@]+$/.test(email.trim());
};\<close>
\<close>

definition not_ws_at :: "code_unit \<Rightarrow> bool" where
  "not_ws_at c \<longleftrightarrow> \<not> is_ws c \<and> c \<noteq> 0x0040"

definition EMAIL_RE :: regexp where
  "EMAIL_RE =
     Seq (OneOrMore (Class not_ws_at))
       (Seq (Class (\<lambda>c. c = 0x0040))
         (Seq (OneOrMore (Class not_ws_at))
           (Seq (Class (\<lambda>c. c = 0x002E))
             (OneOrMore (Class not_ws_at)))))"

definition isValidEmail :: "jsstring \<Rightarrow> bool" where
  "isValidEmail email = re_test EMAIL_RE (trim email)"

section \<open>Tag Input Component\<close>

text \<open>
  The component's state is \<open>tags\<close> and \<open>inputValue\<close>. The \<open>onChange\<close> callback of
  its props is modelled by the list of the arguments it has been called with, oldest
  first. The form gives the component its own \<open>recipients\<close> as \<open>value\<close> and takes
  every \<open>onChange\<close> as the new \<open>recipients\<close>, so the effect that copies \<open>value\<close>
  into \<open>tags\<close> leaves \<open>tags\<close> as the handlers set it.
\<close>

record tag_input =
  tags :: "jsstring list"
  inputValue :: jsstring
  onChange_calls :: "jsstring list list"

definition addTag :: "tag_input \<Rightarrow> jsstring \<Rightarrow> tag_input" where
  "addTag st email =
     (let trimmedEmail = trim email in
      if trimmedEmail \<noteq> [] \<and> isValidEmail trimmedEmail \<and> trimmedEmail \<notin> set (tags st)
      then
        (let newTags = tags st @ [trimmedEmail] in
         st\<lparr>tags := newTags,
            onChange_calls := onChange_calls st @ [newTags],
            inputValue := []\<rparr>)
      else st)"

text \<open>
  \<open>tags.filter((_, index) => index !== indexToRemove)\<close>: the elements are paired with
  their indices, and those whose index differs from \<open>indexToRemove\<close> are kept.
\<close>

definition filter_index :: "(nat \<Rightarrow> bool) \<Rightarrow> 'a list \<Rightarrow> 'a list" where
  "filter_index P xs = map snd (filter (\<lambda>(index, _). P index) (enumerate 0 xs))"

definition removeTag :: "tag_input \<Rightarrow> int \<Rightarrow> tag_input" where
  "removeTag st indexToRemove =
     (let newTags = filter_index (\<lambda>index. int index \<noteq> indexToRemove) (tags st) in
      st\<lparr>tags := newTags, onChange_calls := onChange_calls st @ [newTags]\<rparr>)"

text \<open>\<open>e.key\<close> is the only part of the keyboard event the handler reads.\<close>

definition handleKeyDown :: "tag_input \<Rightarrow> jsstring \<Rightarrow> tag_input" where
  "handleKeyDown st key =
     (if key = js ''Enter'' \<or> key = js '','' \<or> key = js '' '' then addTag st (inputValue st)
      else if key = js ''Backspace'' \<and> inputValue st = [] \<and> length (tags st) > 0
      then removeTag st (int (length (tags st)) - 1)
      else st)"

text \<open>
  \<open>pastedText.split(/[,\s\n;]+/)\<close>: the text is cut at every maximal run of
  separator characters. A run at the very start or the very end leaves an empty first
  or last fragment, and the empty text gives one empty fragment.
\<close>

definition is_separator :: "code_unit \<Rightarrow> bool" where
  "is_separator c \<longleftrightarrow> c = 0x002C \<or> is_ws c \<or> c = 0x000A \<or> c = 0x003B"

function split_from :: "(code_unit \<Rightarrow> bool) \<Rightarrow> jsstring \<Rightarrow> jsstring \<Rightarrow> jsstring list" where
  "split_from sep cur [] = [cur]"
| "split_from sep cur (c # cs) =
     (if sep c then cur # split_from sep [] (dropWhile sep cs)
      else split_from sep (cur @ [c]) cs)"
  by pat_completeness auto
termination
  by (relation "measure (\<lambda>(sep, cur, s). length s)")
     (auto simp: length_dropWhile_le less_Suc_eq_le)

definition split :: "(code_unit \<Rightarrow> bool) \<Rightarrow> jsstring \<Rightarrow> jsstring list" where
  "split sep s = split_from sep [] s"

definition handlePaste :: "tag_input \<Rightarrow> jsstring \<Rightarrow> tag_input" where
  "handlePaste st pastedText =
     (let emails = filter (\<lambda>email. email \<noteq> [] \<and> isValidEmail email)
                     (map trim (split is_separator pastedText));
          uniqueEmails = filter (\<lambda>email. email \<notin> set (tags st)) emails
      in if length uniqueEmails > 0
         then
           (let newTags = tags st @ uniqueEmails in
            st\<lparr>tags := newTags,
               onChange_calls := onChange_calls st @ [newTags],
               inputValue := []\<rparr>)
         else st)"

definition handleBlur :: "tag_input \<Rightarrow> tag_input" where
  "handleBlur st = (if trim (inputValue st) \<noteq> [] then addTag st (inputValue st) else st)"

section \<open>JavaScript values, errors and the platform\<close>

text \<open>
  The values \<open>JSON.parse\<close> can return, and \<open>undefined\<close>. A number is an IEEE double:
  a rational, an infinity or NaN. An object is the list of its own properties in
  insertion order, each name once (JavaScript puts the names that are array indices
  first; the names the source uses are none).
\<close>

datatype jsnumber = NaN | PosInfinity | NegInfinity | Finite rat

datatype jsval =
    Undefined
  | Null
  | Boolean bool
  | Number jsnumber
  | String jsstring
  | Array "jsval list"
  | Object "(jsstring \<times> jsval) list"

datatype js_error = TypeError | SyntaxError | SecurityError | QuotaExceededError | RenderError

text \<open>Truthiness, as \<open>?:\<close>, \<open>||\<close> and \<open>&&\<close> read it.\<close>

fun truthy :: "jsval \<Rightarrow> bool" where
  "truthy Undefined = False"
| "truthy Null = False"
| "truthy (Boolean b) = b"
| "truthy (Number n) = (n \<noteq> NaN \<and> n \<noteq> Finite 0)"
| "truthy (String s) = (s \<noteq> [])"
| "truthy (Array xs) = True"
| "truthy (Object kvs) = True"

definition js_or :: "jsval \<Rightarrow> jsval \<Rightarrow> jsval" where
  "js_or a b = (if truthy a then a else b)"

definition js_and :: "jsval \<Rightarrow> jsval \<Rightarrow> jsval" where
  "js_and a b = (if truthy a then b else a)"

text \<open>
  Property access \<open>v.name\<close>, for a name that is neither an index, nor \<open>length\<close>, nor
  a property of a built-in prototype (the source reads \<open>recipients\<close>, \<open>subject\<close>,
  \<open>body\<close>, \<open>resumeData\<close> and \<open>resumeName\<close>): it throws a TypeError on
  \<open>undefined\<close> and \<open>null\<close>, gives an object's own property, and is \<open>undefined\<close>
  otherwise.
\<close>

fun get_prop :: "jsval \<Rightarrow> jsstring \<Rightarrow> js_error + jsval" where
  "get_prop Undefined name = Inl TypeError"
| "get_prop Null name = Inl TypeError"
| "get_prop (Object kvs) name =
     Inr (case map_of kvs name of Some v \<Rightarrow> v | None \<Rightarrow> Undefined)"
| "get_prop v name = Inr Undefined"

definition bind_err :: "js_error + 'a \<Rightarrow> ('a \<Rightarrow> js_error + 'b) \<Rightarrow> js_error + 'b" where
  "bind_err m f = (case m of Inl e \<Rightarrow> Inl e | Inr v \<Rightarrow> f v)"

definition try_catch :: "js_error + 'a \<Rightarrow> (js_error \<Rightarrow> js_error + 'a) \<Rightarrow> js_error + 'a" where
  "try_catch body handler = (case body of Inl e \<Rightarrow> handler e | Inr v \<Rightarrow> Inr v)"

text \<open>
  What the source calls and does not define is a parameter of the model:
  \<open>JSON.parse\<close> (it returns a value or throws), \<open>JSON.stringify\<close> (the text that
  reaches \<open>setItem\<close>), \<open>fetch(url).then((res) => res.blob())\<close> (the promise resolves
  with the bytes, or rejects) and the test of \<open>z.string().email()\<close>.
\<close>

type_synonym blob = "8 word list"

record platform =
  JSON_parse :: "jsstring \<Rightarrow> js_error + jsval"
  JSON_stringify :: "jsval \<Rightarrow> jsstring"
  fetch_blob :: "jsval \<Rightarrow> blob option"
  zod_email :: "jsstring \<Rightarrow> bool"

section \<open>JSON texts\<close>

text \<open>
  \<open>JSON.stringify\<close> and \<open>JSON.parse\<close> as ECMAScript defines them, for values
  without numbers. They are the \<open>JSON_stringify\<close> and \<open>JSON_parse\<close> of the platform
  where a property needs the texts themselves. Numbers are left out: \<open>json_text\<close>
  writes every number as \<open>null\<close> (which is what the platform does for NaN and the
  infinities only) and \<open>json_parse\<close> rejects a numeric literal; nothing below uses
  them on a value or a text with a number.

  A string is written between double quotes: the short escapes for backspace, tab,
  line feed, form feed, carriage return, the double quote and the backslash, an
  escape with four lowercase hexadecimal digits for the other code units below
  U+0020 and for a surrogate that is not part of a pair, and every other code unit as
  it is.
\<close>

definition hex_digit :: "nat \<Rightarrow> code_unit" where
  "hex_digit n = (if n < 10 then of_nat (48 + n) else of_nat (87 + n))"

definition unicode_escape :: "code_unit \<Rightarrow> jsstring" where
  "unicode_escape c =
     [0x5C, 0x75,
      hex_digit (unat c div 4096), hex_digit (unat c div 256 mod 16),
      hex_digit (unat c div 16 mod 16), hex_digit (unat c mod 16)]"

definition is_high_surrogate :: "code_unit \<Rightarrow> bool" where
  "is_high_surrogate c \<longleftrightarrow> 0xD800 \<le> c \<and> c \<le> 0xDBFF"

definition is_low_surrogate :: "code_unit \<Rightarrow> bool" where
  "is_low_surrogate c \<longleftrightarrow> 0xDC00 \<le> c \<and> c \<le> 0xDFFF"

definition quote_unit :: "code_unit \<Rightarrow> jsstring" where
  "quote_unit c =
     (if c = 0x08 then [0x5C, 0x62]
      else if c = 0x09 then [0x5C, 0x74]
      else if c = 0x0A then [0x5C, 0x6E]
      else if c = 0x0C then [0x5C, 0x66]
      else if c = 0x0D then [0x5C, 0x72]
      else if c = 0x22 then [0x5C, 0x22]
      else if c = 0x5C then [0x5C, 0x5C]
      else if c < 0x20 \<or> is_high_surrogate c \<or> is_low_surrogate c then unicode_escape c
      else [c])"

fun quote_units :: "jsstring \<Rightarrow> jsstring" where
  "quote_units [] = []"
| "quote_units [c] = quote_unit c"
| "quote_units (c # d # cs) =
     (if is_high_surrogate c \<and> is_low_surrogate d then c # d # quote_units cs
      else quote_unit c @ quote_units (d # cs))"

definition quote :: "jsstring \<Rightarrow> jsstring" where
  "quote s = [0x22] @ quote_units s @ [0x22]"

definition hex_value :: "code_unit \<Rightarrow> nat option" where
  "hex_value c =
     (if 0x30 \<le> c \<and> c \<le> 0x39 then Some (unat c - 48)
      else if 0x61 \<le> c \<and> c \<le> 0x66 then Some (unat c - 87)
      else if 0x41 \<le> c \<and> c \<le> 0x46 then Some (unat c - 55)
      else None)"

definition hex4_value :: "code_unit \<Rightarrow> code_unit \<Rightarrow> code_unit \<Rightarrow> code_unit \<Rightarrow> code_unit option" where
  "hex4_value a b c d =
     (case (hex_value a, hex_value b, hex_value c, hex_value d) of
        (Some h3, Some h2, Some h1, Some h0) \<Rightarrow> Some (of_nat (((h3 * 16 + h2) * 16 + h1) * 16 + h0))
      | _ \<Rightarrow> None)"

definition escaped_unit :: "code_unit \<Rightarrow> code_unit option" where
  "escaped_unit e =
     (if e = 0x22 then Some 0x22
      else if e = 0x5C then Some 0x5C
      else if e = 0x2F then Some 0x2F
      else if e = 0x62 then Some 0x08
      else if e = 0x66 then Some 0x0C
      else if e = 0x6E then Some 0x0A
      else if e = 0x72 then Some 0x0D
      else if e = 0x74 then Some 0x09
      else None)"

definition cons_result :: "'a \<Rightarrow> ('a list \<times> 'b) option \<Rightarrow> ('a list \<times> 'b) option" where
  "cons_result x r = map_option (\<lambda>(xs, rest). (x # xs, rest)) r"

fun unquote :: "jsstring \<Rightarrow> (jsstring \<times> jsstring) option" where
  "unquote [] = None"
| "unquote (c # cs) =
     (if c = 0x22 then Some ([], cs)
      else if c = 0x5C then
        (case cs of
           [] \<Rightarrow> None
         | e # es \<Rightarrow>
             if e = 0x75 then
               (case es of
                  h3 # h2 # h1 # h0 # rest \<Rightarrow>
                    (case hex4_value h3 h2 h1 h0 of
                       Some u \<Rightarrow> cons_result u (unquote rest)
                     | None \<Rightarrow> None)
                | _ \<Rightarrow> None)
             else
               (case escaped_unit e of
                  Some u \<Rightarrow> cons_result u (unquote es)
                | None \<Rightarrow> None))
      else if c < 0x20 then None
      else cons_result c (unquote cs))"

text \<open>
  The text of a value. In an array \<open>undefined\<close> is written \<open>null\<close>; in an
  object a property whose value is \<open>undefined\<close> is left out; \<open>JSON.stringify\<close> of
  \<open>undefined\<close> itself is \<open>undefined\<close>, which \<open>setItem\<close> stores as the text
  \<open>undefined\<close>.
\<close>

fun json_text :: "jsval \<Rightarrow> jsstring" where
  "json_text Undefined = js ''null''"
| "json_text Null = js ''null''"
| "json_text (Boolean b) = (if b then js ''true'' else js ''false'')"
| "json_text (Number n) = js ''null''"
| "json_text (String s) = quote s"
| "json_text (Array xs) = [0x5B] @ join [0x2C] (map json_text xs) @ [0x5D]"
| "json_text (Object kvs) =
     [0x7B] @
     join [0x2C]
       (concat (map (\<lambda>(k, v). if v = Undefined then [] else [quote k @ [0x3A] @ json_text v]) kvs)) @
     [0x7D]"

definition json_stringify :: "jsval \<Rightarrow> jsstring" where
  "json_stringify v = (if v = Undefined then js ''undefined'' else json_text v)"

text \<open>
  The parser. \<open>parse_value\<close> reads one value at the start of the text and returns it
  with the rest of the text; its first argument bounds the number of nested calls, and
  \<open>json_parse\<close> gives it more than the length of the text. White space is allowed
  around values and punctuation. When a name occurs twice in an object, the later value
  takes the place of the earlier one.
\<close>

definition is_json_ws :: "code_unit \<Rightarrow> bool" where
  "is_json_ws c \<longleftrightarrow> c = 0x20 \<or> c = 0x09 \<or> c = 0x0A \<or> c = 0x0D"

definition skip_ws :: "jsstring \<Rightarrow> jsstring" where
  "skip_ws s = dropWhile is_json_ws s"

definition literal :: "jsstring \<Rightarrow> jsval \<Rightarrow> jsstring \<Rightarrow> (jsval \<times> jsstring) option" where
  "literal w v s = (if take (length w) s = w then Some (v, drop (length w) s) else None)"

definition object_of :: "(jsstring \<times> jsval) list \<Rightarrow> jsval" where
  "object_of members = Object (foldl (\<lambda>acc (k, v). AList.update k v acc) [] members)"

fun parse_value :: "nat \<Rightarrow> jsstring \<Rightarrow> (jsval \<times> jsstring) option"
  and parse_elements :: "nat \<Rightarrow> jsstring \<Rightarrow> (jsval list \<times> jsstring) option"
  and parse_members :: "nat \<Rightarrow> jsstring \<Rightarrow> ((jsstring \<times> jsval) list \<times> jsstring) option"
where
  "parse_value 0 s = None"
| "parse_value (Suc n) s =
     (case s of
        [] \<Rightarrow> None
      | c # cs \<Rightarrow>
          if c = 0x22 then map_option (\<lambda>(t, rest). (String t, rest)) (unquote cs)
          else if c = 0x5B then
            (case skip_ws cs of
               [] \<Rightarrow> None
             | d # ds \<Rightarrow>
                 if d = 0x5D then Some (Array [], ds)
                 else map_option (\<lambda>(xs, rest). (Array xs, rest)) (parse_elements n (d # ds)))
          else if c = 0x7B then
            (case skip_ws cs of
               [] \<Rightarrow> None
             | d # ds \<Rightarrow>
                 if d = 0x7D then Some (Object [], ds)
                 else map_option (\<lambda>(kvs, rest). (object_of kvs, rest)) (parse_members n (d # ds)))
          else if c = 0x6E then literal (js ''null'') Null s
          else if c = 0x74 then literal (js ''true'') (Boolean True) s
          else if c = 0x66 then literal (js ''false'') (Boolean False) s
          else None)"
| "parse_elements 0 s = None"
| "parse_elements (Suc n) s =
     (case parse_value n s of
        None \<Rightarrow> None
      | Some (v, rest) \<Rightarrow>
          (case skip_ws rest of
             [] \<Rightarrow> None
           | c # cs \<Rightarrow>
               if c = 0x2C then cons_result v (parse_elements n (skip_ws cs))
               else if c = 0x5D then Some ([v], cs)
               else None))"
| "parse_members 0 s = None"
| "parse_members (Suc n) s =
     (case s of
        [] \<Rightarrow> None
      | q # qs \<Rightarrow>
          if q \<noteq> 0x22 then None
          else
            (case unquote qs of
               None \<Rightarrow> None
             | Some (k, rest) \<Rightarrow>
                 (case skip_ws rest of
                    [] \<Rightarrow> None
                  | c # cs \<Rightarrow>
                      if c \<noteq> 0x3A then None
                      else
                        (case parse_value n (skip_ws cs) of
                           None \<Rightarrow> None
                         | Some (v, rest') \<Rightarrow>
                             (case skip_ws rest' of
                                [] \<Rightarrow> None
                              | d # ds \<Rightarrow>
                                  if d = 0x2C then cons_result (k, v) (parse_members n (skip_ws ds))
                                  else if d = 0x7D then Some ([(k, v)], ds)
                                  else None)))))"

definition json_parse :: "jsstring \<Rightarrow> js_error + jsval" where
  "json_parse s =
     (case parse_value (Suc (length s)) (skip_ws s) of
        None \<Rightarrow> Inl SyntaxError
      | Some (v, rest) \<Rightarrow> if skip_ws rest = [] then Inr v else Inl SyntaxError)"

text \<open>
  The values \<open>json_parse\<close> gives back as they were written: no number and no
  \<open>undefined\<close> anywhere, and no name twice in an object. What follows them in the
  text is of no account, so the lemmas on the parser are stated for a value's text
  followed by any rest; \<open>starts_value\<close> holds of the characters a value's text can
  start with, and \<open>member_text\<close> is the text of one property of an object.
\<close>

fun storable :: "jsval \<Rightarrow> bool" where
  "storable Undefined = False"
| "storable Null = True"
| "storable (Boolean b) = True"
| "storable (Number n) = False"
| "storable (String s) = True"
| "storable (Array xs) = list_all storable xs"
| "storable (Object kvs) = (distinct (map fst kvs) \<and> list_all (\<lambda>(k, v). storable v) kvs)"

definition starts_value :: "code_unit \<Rightarrow> bool" where
  "starts_value c \<longleftrightarrow> c = 0x22 \<or> c = 0x5B \<or> c = 0x7B \<or> c = 0x6E \<or> c = 0x74 \<or> c = 0x66"

definition member_text :: "jsstring \<times> jsval \<Rightarrow> jsstring" where
  "member_text kv = quote (fst kv) @ [0x3A] @ json_text (snd kv)"

section \<open>Persistent storage using localStorage\<close>

text \<open>
  The storage area maps keys to texts. Any access throws a SecurityError when the
  page is denied its storage, and \<open>setItem\<close> throws a QuotaExceededError when the
  entry does not fit the quota.
\<close>

record local_storage =
  items :: "jsstring \<rightharpoonup> jsstring"
  access_denied :: bool
  quota :: nat

definition getItem :: "local_storage \<Rightarrow> jsstring \<Rightarrow> js_error + jsstring option" where
  "getItem ls key = (if access_denied ls then Inl SecurityError else Inr (items ls key))"

definition setItem :: "local_storage \<Rightarrow> jsstring \<Rightarrow> jsstring \<Rightarrow> js_error + local_storage" where
  "setItem ls key v =
     (if access_denied ls then Inl SecurityError
      else if quota ls < length key + length v then Inl QuotaExceededError
      else Inr (ls\<lparr>items := (items ls)(key \<mapsto> v)\<rparr>))"

definition removeItem :: "local_storage \<Rightarrow> jsstring \<Rightarrow> js_error + local_storage" where
  "removeItem ls key =
     (if access_denied ls then Inl SecurityError
      else Inr (ls\<lparr>items := (items ls)(key := None)\<rparr>))"

text \<open>
  The browser, as far as the source reads it: whether \<open>window\<close> is defined, the
  storage area, and what \<open>console.error\<close> has been given.
\<close>

record browser =
  has_window :: bool
  localStorage :: local_storage
  console_error :: "js_error list"

definition STORAGE_KEY :: jsstring where
  "STORAGE_KEY = js ''email-form-data''"

definition getStoredData :: "platform \<Rightarrow> browser \<Rightarrow> js_error + jsval" where
  "getStoredData p w =
     (if \<not> has_window w then Inr (Object [])
      else
        try_catch
          (bind_err (getItem (localStorage w) STORAGE_KEY)
             (\<lambda>stored.
                case stored of
                  Some text \<Rightarrow> if text \<noteq> [] then JSON_parse p text else Inr (Object [])
                | None \<Rightarrow> Inr (Object [])))
          (\<lambda>_. Inr (Object [])))"

definition setStoredData :: "platform \<Rightarrow> browser \<Rightarrow> jsval \<Rightarrow> browser" where
  "setStoredData p w data =
     (if \<not> has_window w then w
      else
        (case setItem (localStorage w) STORAGE_KEY (JSON_stringify p data) of
           Inr ls \<Rightarrow> w\<lparr>localStorage := ls\<rparr>
         | Inl error \<Rightarrow> w\<lparr>console_error := console_error w @ [error]\<rparr>))"

definition clearStoredData :: "browser \<Rightarrow> browser" where
  "clearStoredData w =
     (if \<not> has_window w then w
      else
        (case removeItem (localStorage w) STORAGE_KEY of
           Inr ls \<Rightarrow> w\<lparr>localStorage := ls\<rparr>
         | Inl error \<Rightarrow> w\<lparr>console_error := console_error w @ [error]\<rparr>))"

text \<open>
  The stored draft: the recipients, the subject, the body and, when a file has been
  read, its data URL with its name. \<open>draft_object\<close> is the object the auto-save
  effect gives to \<open>setStoredData\<close>:
  \<^verbatim>\<open>{ ...dataToStore, recipients, resumeData: e.target?.result, resumeName: file.name }\<close>
  where \<open>dataToStore\<close> has the form's \<open>subject\<close> and \<open>body\<close>, and the same without
  the last two properties when no file has been read.
\<close>

record draft =
  draft_recipients :: "jsstring list"
  draft_subject :: jsstring
  draft_body :: jsstring
  draft_resume :: "(jsstring \<times> jsstring) option"

definition draft_object :: "draft \<Rightarrow> jsval" where
  "draft_object d =
     Object
       ([(js ''subject'', String (draft_subject d)),
         (js ''body'', String (draft_body d)),
         (js ''recipients'', Array (map String (draft_recipients d)))] @
        (case draft_resume d of
           None \<Rightarrow> []
         | Some (resumeData, resumeName) \<Rightarrow>
             [(js ''resumeData'', String resumeData), (js ''resumeName'', String resumeName)]))"

section \<open>The email form\<close>

text \<open>
  The form's values. The fields have the types the place gives them: JavaScript
  values where they come out of the stored data, and the types of \<open>formSchema\<close>
  for the validated values \<open>onSubmit\<close> is given.
\<close>

record ('r, 's, 'f) form_data =
  recipients :: 'r
  subject :: 's
  body :: 's
  resume :: 'f

text \<open>
  A \<open>File\<close>: the name it was made with, its content type and its bytes. The value
  of the \<open>resume\<close> input is \<open>undefined\<close> (the default), \<open>null\<close> (after a reset) or
  the input's \<open>FileList\<close>.
\<close>

record js_file =
  file_name :: jsval
  file_type :: jsstring
  file_bits :: blob

datatype resume_value = ResumeUndefined | ResumeNull | FileList "js_file list"

type_synonym validated = "(jsstring list, jsstring, resume_value) form_data"

text \<open>
  \<^verbatim>\<open>recipients: z.array(z.string().email()).min(1, ...),
subject: z.string().min(1, ...),
body: z.string().min(10, ...),
resume: z.any().optional()\<close>
\<close>

definition formSchema :: "platform \<Rightarrow> validated \<Rightarrow> bool" where
  "formSchema p data \<longleftrightarrow>
     list_all (zod_email p) (recipients data) \<and> length (recipients data) \<ge> 1 \<and>
     length (subject data) \<ge> 1 \<and>
     length (body data) \<ge> 10"

definition DEFAULT_SUBJECT :: jsstring where
  "DEFAULT_SUBJECT = js ''ReactJS Developer Application''"

definition DEFAULT_BODY :: jsstring where
  "DEFAULT_BODY = js (''Dear Hiring Manager,\<newline>\<newline>'' @
     ''I am writing to express my interest in the ReactJS Developer position. \<newline>\<newline>'' @
     ''With my experience in modern React development and related technologies, '' @
     ''I believe I would be a great fit for your team.\<newline>\<newline>'' @
     ''Please find my resume attached for your consideration.\<newline>\<newline>'' @
     ''Best regards,\<newline>[Your Name]'')"

text \<open>The \<open>defaultValues\<close> given to \<open>useForm\<close>, from the stored data read at mount.\<close>

definition defaultValues :: "jsval \<Rightarrow> js_error + (jsval, jsval, jsval) form_data" where
  "defaultValues storedData =
     bind_err (get_prop storedData (js ''recipients'')) (\<lambda>stored_recipients.
     bind_err (get_prop storedData (js ''subject'')) (\<lambda>stored_subject.
     bind_err (get_prop storedData (js ''body'')) (\<lambda>stored_body.
       Inr \<lparr>recipients = js_or stored_recipients (Array []),
            subject = js_or stored_subject (String DEFAULT_SUBJECT),
            body = js_or stored_body (String DEFAULT_BODY),
            resume = Undefined\<rparr>)))"

text \<open>
  A value as the child of a React element, as in \<open><span>{tag}</span>\<close>: a string
  or a number is shown as text, \<open>null\<close>, \<open>undefined\<close> and the booleans show
  nothing, an array shows its elements, and for an object React throws (\<open>Objects are
  not valid as a React child\<close>, here \<open>RenderError\<close>).
\<close>

fun valid_child :: "jsval \<Rightarrow> bool" where
  "valid_child (Object kvs) = False"
| "valid_child (Array xs) = list_all valid_child xs"
| "valid_child v = True"

text \<open>
  The first render of the tag input with the form's \<open>recipients\<close> as \<open>value\<close>:
  \<open>tags\<close> starts as \<open>value || []\<close>, and the render calls \<open>tags.map\<close> and puts every
  tag in a \<open>span\<close>. A truthy value that is not an array has no \<open>map\<close> function, so
  the call throws a TypeError. The result is the first \<open>tags\<close>.
\<close>

definition TagInput_first_render :: "jsval \<Rightarrow> js_error + jsval" where
  "TagInput_first_render v =
     (case js_or v (Array []) of
        Array xs \<Rightarrow> if list_all valid_child xs then Inr (Array xs) else Inl RenderError
      | _ \<Rightarrow> Inl TypeError)"

text \<open>
  The state \<open>storedFileName\<close> after the mount effect: \<open>null\<close> at first, and the
  stored name when the stored data has both \<open>resumeData\<close> and \<open>resumeName\<close>. The
  render that follows shows it, when it is truthy, as the child of a \<open>span\<close>.
\<close>

definition storedFileName_at_mount :: "jsval \<Rightarrow> js_error + jsval" where
  "storedFileName_at_mount storedData =
     bind_err (get_prop storedData (js ''resumeData'')) (\<lambda>resumeData.
     bind_err (get_prop storedData (js ''resumeName'')) (\<lambda>resumeName.
       Inr (if truthy (js_and resumeData resumeName) then resumeName else Null)))"

definition storedFileName_render :: "jsval \<Rightarrow> js_error + unit" where
  "storedFileName_render storedFileName =
     (if truthy storedFileName \<and> \<not> valid_child storedFileName then Inl RenderError
      else Inr ())"

text \<open>
  Mounting the form: the stored data is read, \<open>useForm\<close> takes its default values,
  the first render renders the tag input with the default \<open>recipients\<close>, the mount
  effect sets \<open>storedFileName\<close>, and the render after it shows the name. An error
  thrown on the way leaves no form. The result is the form's values and
  \<open>storedFileName\<close>.
\<close>

definition mount :: "platform \<Rightarrow> browser \<Rightarrow> js_error + (jsval, jsval, jsval) form_data \<times> jsval" where
  "mount p w =
     bind_err (getStoredData p w) (\<lambda>storedData.
     bind_err (defaultValues storedData) (\<lambda>dv.
     bind_err (TagInput_first_render (recipients dv)) (\<lambda>first_tags.
     bind_err (storedFileName_at_mount storedData) (\<lambda>storedFileName.
     bind_err (storedFileName_render storedFileName) (\<lambda>_.
       Inr (dv, storedFileName))))))"

subsection \<open>Submission\<close>

text \<open>
  A \<open>FormData\<close> is the list of its entries in the order of the \<open>append\<close> calls; an
  entry's value is a text or a file.
\<close>

datatype form_entry = Text jsstring | FileEntry js_file

type_synonym form_payload = "(jsstring \<times> form_entry) list"

record auth =
  email :: jsstring
  password :: jsstring

text \<open>\<open>data.resume && data.resume[0]\<close>: the first file of a file list, if there is one.\<close>

fun chosen_file :: "resume_value \<Rightarrow> js_file option" where
  "chosen_file (FileList (f # fs)) = Some f"
| "chosen_file r = None"

text \<open>
  \<open>onSubmit\<close> either calls \<open>mutation.mutate\<close> before it returns, or starts the
  fetch of the stored data URL and returns; the promise's callbacks then hold the
  form data built so far and the stored name.
\<close>

record pending_fetch =
  url :: jsval
  name :: jsval
  formData :: form_payload

datatype submit_action = Mutate form_payload | FetchThen pending_fetch

text \<open>The form data after the five \<open>append\<close> calls \<open>onSubmit\<close> starts with.\<close>

definition text_fields :: "auth \<Rightarrow> validated \<Rightarrow> form_payload" where
  "text_fields a data =
     [(js ''email'', Text (email a)),
      (js ''app_password'', Text (password a)),
      (js ''recipients'', Text (join (js '','') (recipients data))),
      (js ''subject'', Text (subject data)),
      (js ''body'', Text (body data))]"

definition onSubmit :: "auth \<Rightarrow> jsval \<Rightarrow> validated \<Rightarrow> js_error + submit_action" where
  "onSubmit a storedData data =
     (let formData = text_fields a data
      in
        case chosen_file (resume data) of
          Some f \<Rightarrow> Inr (Mutate (formData @ [(js ''resume'', FileEntry f)]))
        | None \<Rightarrow>
            bind_err (get_prop storedData (js ''resumeData'')) (\<lambda>resumeData.
            bind_err (get_prop storedData (js ''resumeName'')) (\<lambda>resumeName.
              if truthy (js_and resumeData resumeName)
              then Inr (FetchThen \<lparr>url = resumeData, name = resumeName, formData = formData\<rparr>)
              else Inr (Mutate formData))))"

text \<open>
  \<^verbatim>\<open>.then((blob) => {
  const file = new File([blob], storedData.resumeName, { type: "application/pdf" });
  formData.append("resume", file);
  mutation.mutate(formData);
});\<close>
\<close>

definition append_decoded :: "pending_fetch \<Rightarrow> blob \<Rightarrow> form_payload" where
  "append_decoded t b =
     formData t @
       [(js ''resume'',
         FileEntry \<lparr>file_name = name t, file_type = js ''application/pdf'', file_bits = b\<rparr>)]"

subsection \<open>The form as a state machine\<close>

text \<open>
  The state between two events: the form's values, the browser, the fetches that
  have not settled yet, the sends that have not settled yet, the number of \<open>mutate\<close>
  calls made so far, the status of the mutation the component observes, and the
  errors no handler caught. A send is numbered by the \<open>mutate\<close> calls made before it.
  \<open>useMutation\<close> runs every \<open>mutate\<close> call, and the status it reports is that of the
  latest call: an earlier send that settles later does not change it.
\<close>

datatype mutation_status = Idle | Pending | Success | Error

record email_form =
  form_values :: validated
  win :: browser
  fetching :: "pending_fetch list"
  in_flight :: "(nat \<times> form_payload) list"
  calls :: nat
  status :: mutation_status
  uncaught :: "js_error list"

definition isPending :: "email_form \<Rightarrow> bool" where
  "isPending s \<longleftrightarrow> status s = Pending"

definition mutate :: "form_payload \<Rightarrow> email_form \<Rightarrow> email_form" where
  "mutate fd s =
     s\<lparr>in_flight := in_flight s @ [(calls s, fd)], calls := Suc (calls s), status := Pending\<rparr>"

text \<open>
  A click on the send button: the button is disabled while the mutation is pending,
  and \<open>handleSubmit\<close> calls \<open>onSubmit\<close> when the values pass the schema.
  \<open>handleSubmit\<close> validates asynchronously, so in the browser \<open>onSubmit\<close> runs a
  moment after the click; here the click, the validation and the call of \<open>onSubmit\<close>
  are one step, which leaves out the clicks that fall between them.
  \<open>storedData\<close> is what \<open>getStoredData\<close> gave at the last render; no event of this
  machine changes the storage, so it is what \<open>getStoredData\<close> gives at the click.
\<close>

definition click_send :: "platform \<Rightarrow> auth \<Rightarrow> email_form \<Rightarrow> email_form" where
  "click_send p a s =
     (if isPending s then s
      else if \<not> formSchema p (form_values s) then s
      else
        (case bind_err (getStoredData p (win s))
                (\<lambda>storedData. onSubmit a storedData (form_values s)) of
           Inr (Mutate fd) \<Rightarrow> mutate fd s
         | Inr (FetchThen t) \<Rightarrow> s\<lparr>fetching := fetching s @ [t]\<rparr>
         | Inl e \<Rightarrow> s\<lparr>uncaught := uncaught s @ [e]\<rparr>))"

definition drop_nth :: "nat \<Rightarrow> 'a list \<Rightarrow> 'a list" where
  "drop_nth i xs = take i xs @ drop (Suc i) xs"

text \<open>The \<open>i\<close>-th pending fetch settles: its promise resolves with the blob, or rejects.\<close>

definition fetch_settled :: "platform \<Rightarrow> nat \<Rightarrow> email_form \<Rightarrow> email_form" where
  "fetch_settled p i s =
     (if i < length (fetching s)
      then
        (let t = fetching s ! i;
             s' = s\<lparr>fetching := drop_nth i (fetching s)\<rparr>
         in case fetch_blob p (url t) of
              Some b \<Rightarrow> mutate (append_decoded t b) s'
            | None \<Rightarrow> s'\<lparr>uncaught := uncaught s' @ [TypeError]\<rparr>)
      else s)"

text \<open>The send numbered \<open>i\<close> settles, with success or with failure.\<close>

definition send_settled :: "nat \<Rightarrow> bool \<Rightarrow> email_form \<Rightarrow> email_form" where
  "send_settled i ok s =
     (if i \<in> fst ` set (in_flight s)
      then
        s\<lparr>in_flight := filter (\<lambda>(j, fd). j \<noteq> i) (in_flight s),
          status := (if Suc i = calls s
                     then (if ok then Success else Error)
                     else status s)\<rparr>
      else s)"

datatype event = ClickSend | FetchSettled nat | SendSettled nat bool

fun step :: "platform \<Rightarrow> auth \<Rightarrow> email_form \<Rightarrow> event \<Rightarrow> email_form" where
  "step p a s ClickSend = click_send p a s"
| "step p a s (FetchSettled i) = fetch_settled p i s"
| "step p a s (SendSettled i ok) = send_settled i ok s"

definition run :: "platform \<Rightarrow> auth \<Rightarrow> email_form \<Rightarrow> event list \<Rightarrow> email_form" where
  "run p a s evs = foldl (step p a) s evs"

section \<open>Sample inputs\<close>

text \<open>
  The concrete inputs the closed theorems below are evaluated at: a tag collection, a
  stored draft with its JSON text, the text of a stored draft whose subject is empty,
  a text whose \<open>recipients\<close> is a string, a browser with a given storage content, and a
  platform with the JSON functions above, whose fetch resolves for the one data URL of
  the stored draft (with the five bytes it encodes) and whose \<open>z.string().email()\<close>
  accepts the one recipient of the sample form.
\<close>

definition sample_tags :: tag_input where
  "sample_tags =
     \<lparr>tags = [js ''hr@example.com'', js ''jobs@example.org''],
      inputValue = [],
      onChange_calls = []\<rparr>"

definition sample_draft :: draft where
  "sample_draft =
     \<lparr>draft_recipients = [js ''hr@example.com''],
      draft_subject = js ''Hi'',
      draft_body = js ''Hello there, world'',
      draft_resume = Some (js ''data:application/pdf;base64,JVBERi0='', js ''resume.pdf'')\<rparr>"

definition sample_data :: jsval where
  "sample_data = Object
     [(js ''subject'', String (js ''Hi'')),
      (js ''body'', String (js ''Hello there, world'')),
      (js ''recipients'', Array [String (js ''hr@example.com'')]),
      (js ''resumeData'', String (js ''data:application/pdf;base64,JVBERi0='')),
      (js ''resumeName'', String (js ''resume.pdf''))]"

definition sample_text :: jsstring where
  \<open>sample_text = js (''{"subject":"Hi","body":"Hello there, world",'' @
     ''"recipients":["hr@example.com"],'' @
     ''"resumeData":"data:application/pdf;base64,JVBERi0=","resumeName":"resume.pdf"}'')\<close>

definition empty_subject_text :: jsstring where
  \<open>empty_subject_text = js (''{"subject":"","body":"Hello there, world",'' @
     ''"recipients":["hr@example.com"]}'')\<close>

definition recipients_string_text :: jsstring where
  \<open>recipients_string_text = js ''{"recipients":"x@y.zz"}''\<close>

definition sample_platform :: platform where
  "sample_platform =
     \<lparr>JSON_parse = json_parse,
      JSON_stringify = json_stringify,
      fetch_blob = (\<lambda>u. if u = String (js ''data:application/pdf;base64,JVBERi0='')
                          then Some [0x25, 0x50, 0x44, 0x46, 0x2D] else None),
      zod_email = (\<lambda>s. s = js ''hr@example.com'')\<rparr>"

definition sample_browser :: "(jsstring \<rightharpoonup> jsstring) \<Rightarrow> browser" where
  "sample_browser m =
     \<lparr>has_window = True,
      localStorage = \<lparr>items = m, access_denied = False, quota = 5000000\<rparr>,
      console_error = []\<rparr>"

definition sample_auth :: auth where
  "sample_auth = \<lparr>email = js ''me@example.com'', password = js ''app-password''\<rparr>"

definition sample_form :: email_form where
  "sample_form =
     \<lparr>form_values =
        \<lparr>recipients = [js ''hr@example.com''],
         subject = js ''Hi'',
         body = js ''Hello there, world'',
         resume = ResumeUndefined\<rparr>,
      win = sample_browser [STORAGE_KEY \<mapsto> sample_text],
      fetching = [],
      in_flight = [],
      calls = 0,
      status = Idle,
      uncaught = []\<rparr>"

section \<open>Properties of the tag input\<close>

lemma dropWhile_trim: "dropWhile is_ws (trim s) = trim s"
proof -
  let ?t = "dropWhile is_ws s"
  have parts: "?t = trim s @ rev (takeWhile is_ws (rev ?t))"
    unfolding trim_def by (metis rev_append rev_rev_ident takeWhile_dropWhile_id)
  show ?thesis
  proof (cases "trim s")
    case Nil
    then show ?thesis by simp
  next
    case (Cons c cs)
    with parts have "?t = c # (cs @ rev (takeWhile is_ws (rev ?t)))" by simp
    then have "\<not> is_ws c" by (metis hd_dropWhile list.sel(1) list.distinct(1))
    with Cons show ?thesis by simp
  qed
qed

lemma trim_idem: "trim (trim s) = trim s"
proof -
  have "trim (trim s) = rev (dropWhile is_ws (rev (trim s)))"
    by (simp add: trim_def[of "trim s"] dropWhile_trim)
  also have "\<dots> = trim s" by (simp add: trim_def)
  finally show ?thesis .
qed

lemma isValidEmail_trim: "isValidEmail (trim s) = isValidEmail s"
  by (simp add: isValidEmail_def trim_idem)

lemma filter_enumerate_neq:
  "map snd (filter (\<lambda>(i, _). i \<noteq> k) (enumerate n xs)) =
     (if k < n then xs else take (k - n) xs @ drop (Suc (k - n)) xs)"
proof (induction xs arbitrary: n)
  case Nil
  then show ?case by simp
next
  case (Cons x xs)
  show ?case
  proof (cases "k < n")
    case True
    then show ?thesis using Cons[of "Suc n"] by simp
  next
    case False
    show ?thesis
    proof (cases "k = n")
      case True
      then show ?thesis using Cons[of "Suc n"] by simp
    next
      case neq: False
      with False have "n < k" by simp
      then obtain d where d: "k - n = Suc d" "k - Suc n = d" by (cases "k - n") auto
      with \<open>n < k\<close> show ?thesis using Cons[of "Suc n"] by simp
    qed
  qed
qed

lemma filter_index_remove:
  assumes "0 \<le> i"
  shows "filter_index (\<lambda>index. int index \<noteq> i) xs = take (nat i) xs @ drop (Suc (nat i)) xs"
proof -
  have "(\<lambda>index. int index \<noteq> i) = (\<lambda>index. index \<noteq> nat i)" using assms by auto
  then show ?thesis using filter_enumerate_neq[of "nat i" 0 xs] by (simp add: filter_index_def)
qed

text \<open>
  C1 (fails on the code). Pasting a text that repeats one valid address leaves the
  address twice in the collection: \<open>handlePaste\<close> filters the fragments against the
  tags it already has, not against each other. Here the collection is empty and the
  pasted text is \<open>a@b.co, a@b.co\<close>.
\<close>

theorem handlePaste_repeats_address:
  "tags (handlePaste \<lparr>tags = [], inputValue = [], onChange_calls = []\<rparr> (js ''a@b.co, a@b.co'')) =
     [js ''a@b.co'', js ''a@b.co'']"
  by (simp add: handlePaste_def Let_def js_def split_def is_separator_def is_ws_def trim_def
        isValidEmail_def EMAIL_RE_def OneOrMore_def not_ws_at_def)

text \<open>
  C2. Adding a string that, once trimmed, is already in the collection, or that does
  not have the shape of an email address, changes nothing: the tags, the text being
  typed and the calls of \<open>onChange\<close> are as before.
\<close>

theorem addTag_duplicate_or_malformed:
  "trim candidate \<in> set (tags st) \<or> \<not> isValidEmail candidate \<Longrightarrow> addTag st candidate = st"
  by (auto simp: addTag_def Let_def isValidEmail_trim)

theorem addTag_duplicate_or_malformed_witness:
  "trim (js '' hr@example.com '') \<in> set (tags sample_tags) \<and>
   addTag sample_tags (js '' hr@example.com '') = sample_tags \<and>
   \<not> isValidEmail (js ''hr@example'') \<and>
   addTag sample_tags (js ''hr@example'') = sample_tags"
proof -
  have dup: "trim (js '' hr@example.com '') \<in> set (tags sample_tags)"
    by (simp add: sample_tags_def trim_def js_def is_ws_def)
  have bad: "\<not> isValidEmail (js ''hr@example'')"
    by (simp add: isValidEmail_def trim_def js_def is_ws_def EMAIL_RE_def OneOrMore_def
          not_ws_at_def)
  show ?thesis
    using dup bad
      addTag_duplicate_or_malformed[of "js '' hr@example.com ''" sample_tags]
      addTag_duplicate_or_malformed[of "js ''hr@example''" sample_tags]
    by simp
qed

text \<open>
  C3. Removing the chip at an index \<open>i\<close> with \<open>0 \<le> i < n\<close> from a collection of
  length \<open>n\<close> gives a collection of length \<open>n - 1\<close>: the chips before \<open>i\<close> followed by
  the chips after \<open>i\<close>, so that the chip at a position \<open>j\<close> of the result is the old
  chip at \<open>j\<close> when \<open>j < i\<close> and the old chip at \<open>j + 1\<close> otherwise.
\<close>

theorem removeTag_at_index:
  assumes "0 \<le> i" and "i < int (length (tags st))"
  shows "length (tags (removeTag st i)) = length (tags st) - 1 \<and>
         tags (removeTag st i) = take (nat i) (tags st) @ drop (nat i + 1) (tags st) \<and>
         (\<forall>j < length (tags st) - 1.
            tags (removeTag st i) ! j = (if j < nat i then tags st ! j else tags st ! (j + 1)))"
proof -
  have eq: "tags (removeTag st i) = take (nat i) (tags st) @ drop (nat i + 1) (tags st)"
    using assms(1) by (simp add: removeTag_def Let_def filter_index_remove)
  have len: "length (tags (removeTag st i)) = length (tags st) - 1"
    using assms unfolding eq by auto
  have nth: "tags (removeTag st i) ! j = (if j < nat i then tags st ! j else tags st ! (j + 1))"
    if "j < length (tags st) - 1" for j
    using that assms unfolding eq by (auto simp: nth_append min_def)
  from eq len nth show ?thesis by blast
qed

theorem removeTag_at_index_witness:
  "(0::int) \<le> 0 \<and> (0::int) < int (length (tags sample_tags)) \<and>
   length (tags (removeTag sample_tags 0)) = 1 \<and>
   tags (removeTag sample_tags 0) = [js ''jobs@example.org'']"
  using removeTag_at_index[of 0 sample_tags] by (simp add: sample_tags_def)

text \<open>
  C10. Backspace with nothing typed and a non-empty collection removes the last chip;
  with something typed, or with an empty collection, it leaves the collection as it
  is.
\<close>

theorem handleKeyDown_Backspace:
  "(tags st \<noteq> [] \<and> inputValue st = [] \<longrightarrow>
      tags (handleKeyDown st (js ''Backspace'')) = butlast (tags st)) \<and>
   (inputValue st \<noteq> [] \<or> tags st = [] \<longrightarrow>
      tags (handleKeyDown st (js ''Backspace'')) = tags st)"
proof -
  have k: "js ''Backspace'' \<noteq> js ''Enter''" "js ''Backspace'' \<noteq> js '',''"
    "js ''Backspace'' \<noteq> js '' ''"
    by (simp_all add: js_def)
  have "tags (removeTag st (int (length (tags st)) - 1)) = butlast (tags st)" if "tags st \<noteq> []"
  proof -
    from that have "0 \<le> int (length (tags st)) - 1" by (cases "tags st") auto
    then show ?thesis using that
      by (simp add: removeTag_def Let_def filter_index_remove butlast_conv_take nat_diff_distrib')
  qed
  then show ?thesis by (auto simp: handleKeyDown_def k)
qed

theorem handleKeyDown_Backspace_witness:
  "tags sample_tags \<noteq> [] \<and> inputValue sample_tags = [] \<and>
   tags (handleKeyDown sample_tags (js ''Backspace'')) = [js ''hr@example.com''] \<and>
   inputValue (sample_tags\<lparr>inputValue := js ''x''\<rparr>) \<noteq> [] \<and>
   tags (handleKeyDown (sample_tags\<lparr>inputValue := js ''x''\<rparr>) (js ''Backspace'')) =
     tags sample_tags"
  using handleKeyDown_Backspace[of sample_tags]
    handleKeyDown_Backspace[of "sample_tags\<lparr>inputValue := js ''x''\<rparr>"]
  by (simp add: sample_tags_def js_def)

section \<open>Properties of the JSON texts\<close>

lemma unat_of_nat_16: "k < 65536 \<Longrightarrow> unat (of_nat k :: code_unit) = k"
  by (simp add: unat_of_nat)

lemma unat_hex_digit: "n < 16 \<Longrightarrow> unat (hex_digit n) = (if n < 10 then 48 + n else 87 + n)"
  unfolding hex_digit_def by (simp add: unat_of_nat_16 del: of_nat_add)

lemma hex_value_digit: "n < 16 \<Longrightarrow> hex_value (hex_digit n) = Some n"
  by (auto simp: hex_value_def word_le_nat_alt unat_hex_digit)

lemma hex_digits_value:
  fixes n :: nat
  shows "((n div 4096 * 16 + n div 256 mod 16) * 16 + n div 16 mod 16) * 16 + n mod 16 = n"
proof -
  have e1: "n div 16 div 16 = n div 256" and e2: "n div 256 div 16 = n div 4096"
    by (simp_all add: div_mult2_eq)
  have f1: "n div 4096 * 16 + n div 256 mod 16 = n div 256"
    using div_mult_mod_eq[of "n div 256" 16] unfolding e2 .
  have f2: "n div 256 * 16 + n div 16 mod 16 = n div 16"
    using div_mult_mod_eq[of "n div 16" 16] unfolding e1 .
  have f3: "n div 16 * 16 + n mod 16 = n"
    by (rule div_mult_mod_eq)
  show ?thesis unfolding f1 f2 f3 ..
qed

lemma hex4_value_escape:
  "hex4_value (hex_digit (unat c div 4096)) (hex_digit (unat c div 256 mod 16))
     (hex_digit (unat c div 16 mod 16)) (hex_digit (unat c mod 16)) = Some (c :: code_unit)"
proof -
  have lt: "unat c < 65536" using unsigned_less[of c] by simp
  then have d: "unat c div 4096 < 16" by simp
  have m: "unat c div 256 mod 16 < 16" "unat c div 16 mod 16 < 16" "unat c mod 16 < 16" by simp_all
  have "hex4_value (hex_digit (unat c div 4096)) (hex_digit (unat c div 256 mod 16))
     (hex_digit (unat c div 16 mod 16)) (hex_digit (unat c mod 16)) =
     Some (of_nat (((unat c div 4096 * 16 + unat c div 256 mod 16) * 16 + unat c div 16 mod 16) * 16
             + unat c mod 16))"
    by (simp only: hex4_value_def hex_value_digit[OF d] hex_value_digit[OF m(1)]
      hex_value_digit[OF m(2)] hex_value_digit[OF m(3)] prod.case option.case)
  also have "\<dots> = Some (of_nat (unat c))" by (simp only: hex_digits_value)
  also have "\<dots> = Some c" by simp
  finally show ?thesis .
qed

lemma unquote_end: "unquote (0x22 # rest) = Some ([], rest)"
  by simp

lemma unquote_plain:
  "c \<noteq> 0x22 \<Longrightarrow> c \<noteq> 0x5C \<Longrightarrow> \<not> c < 0x20 \<Longrightarrow> unquote (c # t) = cons_result c (unquote t)"
  by simp

lemma unquote_escaped:
  "e \<noteq> 0x75 \<Longrightarrow> escaped_unit e = Some u \<Longrightarrow> unquote (0x5C # e # t) = cons_result u (unquote t)"
  by simp

lemma unquote_unicode:
  "hex4_value h3 h2 h1 h0 = Some u \<Longrightarrow>
   unquote (0x5C # 0x75 # h3 # h2 # h1 # h0 # t) = cons_result u (unquote t)"
  by simp

lemma unquote_unicode_escape: "unquote (unicode_escape c @ t) = cons_result c (unquote t)"
  unfolding unicode_escape_def using hex4_value_escape[of c]
  by (simp only: append_Cons append_Nil unquote_unicode)

lemma escaped_units:
  "escaped_unit 0x62 = Some 0x08" "escaped_unit 0x74 = Some 0x09" "escaped_unit 0x6E = Some 0x0A"
  "escaped_unit 0x66 = Some 0x0C" "escaped_unit 0x72 = Some 0x0D" "escaped_unit 0x22 = Some 0x22"
  "escaped_unit 0x5C = Some 0x5C"
  by (simp_all add: escaped_unit_def)

lemma unquote_quote_unit: "unquote (quote_unit c @ t) = cons_result c (unquote t)"
proof -
  consider "c = 0x08" | "c = 0x09" | "c = 0x0A" | "c = 0x0C" | "c = 0x0D" | "c = 0x22" | "c = 0x5C"
    | "c \<notin> {0x08, 0x09, 0x0A, 0x0C, 0x0D, 0x22, 0x5C}" "c < 0x20 \<or> is_high_surrogate c \<or> is_low_surrogate c"
    | "c \<notin> {0x08, 0x09, 0x0A, 0x0C, 0x0D, 0x22, 0x5C}" "\<not> (c < 0x20 \<or> is_high_surrogate c \<or> is_low_surrogate c)"
    by blast
  then show ?thesis
  proof cases
    case 8
    then have "quote_unit c = unicode_escape c" by (simp add: quote_unit_def)
    then show ?thesis by (simp only: unquote_unicode_escape)
  next
    case 9
    then have "quote_unit c = [c]" by (simp add: quote_unit_def)
    with 9 show ?thesis by (simp del: unquote.simps add: unquote_plain)
  qed (simp_all only: quote_unit_def, simp_all del: unquote.simps add: unquote_escaped escaped_units)
qed

lemma surrogate_plain:
  "is_high_surrogate c \<or> is_low_surrogate c \<Longrightarrow> c \<noteq> 0x22 \<and> c \<noteq> 0x5C \<and> \<not> c < 0x20"
  by (auto simp: is_high_surrogate_def is_low_surrogate_def word_le_nat_alt word_less_nat_alt)

lemma unquote_quote_units:
  "unquote (quote_units s @ 0x22 # rest) = Some (s, rest)"
proof (induction s rule: quote_units.induct)
  case 1
  then show ?case by simp
next
  case (2 c)
  have "unquote (quote_units [c] @ 0x22 # rest) = cons_result c (unquote (0x22 # rest))"
    by (simp only: quote_units.simps unquote_quote_unit)
  then show ?case by (simp add: cons_result_def)
next
  case (3 c d cs)
  show ?case
  proof (cases "is_high_surrogate c \<and> is_low_surrogate d")
    case True
    then have q: "quote_units (c # d # cs) = c # d # quote_units cs" by simp
    have "unquote (c # d # quote_units cs @ 0x22 # rest) =
          cons_result c (cons_result d (unquote (quote_units cs @ 0x22 # rest)))"
      using True surrogate_plain[of c] surrogate_plain[of d]
      by (simp del: unquote.simps add: unquote_plain)
    then show ?thesis using "3.IH"(1)[OF True] unfolding q by (simp add: cons_result_def)
  next
    case False
    then have q: "quote_units (c # d # cs) = quote_unit c @ quote_units (d # cs)"
      by (simp only: quote_units.simps if_False)
    show ?thesis unfolding q using "3.IH"(2)[OF False]
      by (simp only: append_assoc unquote_quote_unit) (simp add: cons_result_def)
  qed
qed

lemma unquote_quote: "unquote (tl (quote s) @ rest) = Some (s, rest)"
  by (simp add: quote_def unquote_quote_units)

lemma skip_ws_Cons: "\<not> is_json_ws c \<Longrightarrow> skip_ws (c # s) = c # s"
  by (simp add: skip_ws_def)

lemma not_ws:
  "\<not> is_json_ws 0x22" "\<not> is_json_ws 0x5B" "\<not> is_json_ws 0x5D" "\<not> is_json_ws 0x7B"
  "\<not> is_json_ws 0x7D" "\<not> is_json_ws 0x2C" "\<not> is_json_ws 0x3A"
  "\<not> is_json_ws 0x6E" "\<not> is_json_ws 0x74" "\<not> is_json_ws 0x66"
  by (simp_all add: is_json_ws_def)

lemma starts_value_plain:
  "starts_value c \<Longrightarrow> \<not> is_json_ws c \<and> c \<noteq> 0x5D \<and> c \<noteq> 0x7D"
  by (auto simp: starts_value_def is_json_ws_def)

lemma json_text_starts: "\<exists>c t. json_text v = c # t \<and> starts_value c"
  by (cases v) (auto simp: starts_value_def js_def quote_def)

lemma pv_string: "parse_value (Suc n) (quote s @ r) = Some (String s, r)"
  by (simp add: quote_def unquote_quote_units)

lemma pv_null: "parse_value (Suc n) (js ''null'' @ r) = Some (Null, r)"
  by (simp add: js_def literal_def)

lemma pv_true: "parse_value (Suc n) (js ''true'' @ r) = Some (Boolean True, r)"
  by (simp add: js_def literal_def)

lemma pv_false: "parse_value (Suc n) (js ''false'' @ r) = Some (Boolean False, r)"
  by (simp add: js_def literal_def)

lemma pv_array_empty: "parse_value (Suc n) (0x5B # 0x5D # r) = Some (Array [], r)"
  by (simp add: skip_ws_Cons not_ws)

lemma pv_array:
  "starts_value d \<Longrightarrow>
   parse_value (Suc n) (0x5B # d # ds) = map_option (\<lambda>(xs, rest). (Array xs, rest)) (parse_elements n (d # ds))"
  using starts_value_plain[of d] by (simp add: skip_ws_Cons)

lemma pv_object_empty: "parse_value (Suc n) (0x7B # 0x7D # r) = Some (Object [], r)"
  by (simp add: skip_ws_Cons not_ws)

lemma pv_object:
  "d = 0x22 \<Longrightarrow>
   parse_value (Suc n) (0x7B # d # ds) = map_option (\<lambda>(kvs, rest). (object_of kvs, rest)) (parse_members n (d # ds))"
  by (simp add: skip_ws_Cons not_ws)

lemma pe_last:
  "parse_value n s = Some (v, 0x5D # r) \<Longrightarrow> parse_elements (Suc n) s = Some ([v], r)"
  by (simp add: skip_ws_Cons not_ws)

lemma pe_more:
  "parse_value n s = Some (v, 0x2C # d # ds) \<Longrightarrow> starts_value d \<Longrightarrow>
   parse_elements (Suc n) s = cons_result v (parse_elements n (d # ds))"
  using starts_value_plain[of d] by (simp add: skip_ws_Cons not_ws)

lemma pm_last:
  "unquote qs = Some (k, 0x3A # d # ds) \<Longrightarrow> starts_value d \<Longrightarrow>
   parse_value n (d # ds) = Some (v, 0x7D # r) \<Longrightarrow>
   parse_members (Suc n) (0x22 # qs) = Some ([(k, v)], r)"
  using starts_value_plain[of d] by (simp add: skip_ws_Cons not_ws)

lemma pm_more:
  "unquote qs = Some (k, 0x3A # d # ds) \<Longrightarrow> starts_value d \<Longrightarrow>
   parse_value n (d # ds) = Some (v, 0x2C # 0x22 # r) \<Longrightarrow>
   parse_members (Suc n) (0x22 # qs) = cons_result (k, v) (parse_members n (0x22 # r))"
  using starts_value_plain[of d] by (simp add: skip_ws_Cons not_ws)

lemma join_Cons: "join sep (a # as) = a @ (if as = [] then [] else sep @ join sep as)"
  by (cases as) simp_all

lemma join_texts_starts:
  "xs \<noteq> [] \<Longrightarrow> \<exists>c t. join [0x2C] (map json_text xs) = c # t \<and> starts_value c"
  using json_text_starts[of "hd xs"] by (cases xs) (auto simp: join_Cons)

lemma elements_roundtrip:
  assumes "\<And>x n r. x \<in> set xs \<Longrightarrow> storable x \<Longrightarrow> length (json_text x) \<le> n \<Longrightarrow>
             parse_value n (json_text x @ r) = Some (x, r)"
    and "list_all storable xs" and "xs \<noteq> []"
    and "length (join [0x2C] (map json_text xs)) < m"
  shows "parse_elements m (join [0x2C] (map json_text xs) @ 0x5D # r) = Some (xs, r)"
  using assms
proof (induction xs arbitrary: m)
  case Nil
  then show ?case by simp
next
  case (Cons x xs)
  from Cons.prems(4) obtain m' where m: "m = Suc m'" by (cases m) auto
  have sx: "storable x" using Cons.prems(2) by simp
  show ?case
  proof (cases "xs = []")
    case True
    with Cons.prems(4) m have "length (json_text x) \<le> m'" by simp
    from Cons.prems(1)[OF _ sx this, of "0x5D # r"]
    have "parse_value m' (json_text x @ 0x5D # r) = Some (x, 0x5D # r)" by simp
    then show ?thesis unfolding m using True by (simp only: pe_last list.map join.simps)
  next
    case False
    then obtain c t where ct: "join [0x2C] (map json_text xs) = c # t" "starts_value c"
      using join_texts_starts by blast
    have len: "length (json_text x) \<le> m'" "length (join [0x2C] (map json_text xs)) < m'"
      using Cons.prems(4) m False by (simp_all add: join_Cons)
    have tx: "join [0x2C] (map json_text (x # xs)) @ 0x5D # r =
               json_text x @ 0x2C # c # (t @ 0x5D # r)"
      using False ct by (simp add: join_Cons)
    from Cons.prems(1)[OF _ sx len(1), of "0x2C # c # (t @ 0x5D # r)"]
    have pv: "parse_value m' (json_text x @ 0x2C # c # (t @ 0x5D # r)) =
              Some (x, 0x2C # c # (t @ 0x5D # r))" by simp
    have "parse_elements m' (join [0x2C] (map json_text xs) @ 0x5D # r) = Some (xs, r)"
      using Cons.prems(1,2) False len(2) by (intro Cons.IH) simp_all
    then have rec: "parse_elements m' (c # (t @ 0x5D # r)) = Some (xs, r)" by (simp add: ct)
    show ?thesis unfolding m tx pe_more[OF pv ct(2)] rec by (simp add: cons_result_def)
  qed
qed

lemma member_text_unquote:
  "\<exists>qs. member_text (k, v) @ s = 0x22 # qs \<and> unquote qs = Some (k, 0x3A # json_text v @ s)"
  by (simp add: member_text_def quote_def unquote_quote_units)

lemma members_roundtrip:
  assumes "\<And>k v n r. (k, v) \<in> set kvs \<Longrightarrow> storable v \<Longrightarrow> length (json_text v) \<le> n \<Longrightarrow>
             parse_value n (json_text v @ r) = Some (v, r)"
    and "list_all (\<lambda>(k, v). storable v) kvs" and "kvs \<noteq> []"
    and "length (join [0x2C] (map member_text kvs)) < m"
  shows "parse_members m (join [0x2C] (map member_text kvs) @ 0x7D # r) = Some (kvs, r)"
  using assms
proof (induction kvs arbitrary: m)
  case Nil
  then show ?case by simp
next
  case (Cons kv kvs)
  obtain k v where kv: "kv = (k, v)" by (cases kv)
  from Cons.prems(4) obtain m' where m: "m = Suc m'" by (cases m) auto
  have sv: "storable v" using Cons.prems(2) kv by simp
  obtain d ds where d: "json_text v = d # ds" "starts_value d" using json_text_starts by blast
  have lv: "length (json_text v) \<le> m'"
    using Cons.prems(4) m kv by (simp add: join_Cons member_text_def split: if_splits)
  show ?case
  proof (cases "kvs = []")
    case True
    obtain qs where qs: "member_text (k, v) @ 0x7D # r = 0x22 # qs"
      "unquote qs = Some (k, 0x3A # json_text v @ 0x7D # r)"
      using member_text_unquote by blast
    from Cons.prems(1)[OF _ sv lv, of k "0x7D # r"] kv
    have pv: "parse_value m' (d # (ds @ 0x7D # r)) = Some (v, 0x7D # r)" by (simp add: d)
    have "parse_members (Suc m') (0x22 # qs) = Some ([(k, v)], r)"
      using qs(2) d(2) pv by (intro pm_last[where d = d and ds = "ds @ 0x7D # r"]) (simp_all add: d)
    then show ?thesis unfolding m using True kv qs(1) by simp
  next
    case False
    then obtain kv' kvs' where c: "kvs = kv' # kvs'" by (cases kvs) auto
    obtain k' v' where kv': "kv' = (k', v')" by (cases kv')
    have nxt: "\<exists>t. join [0x2C] (map member_text kvs) = 0x22 # t"
      unfolding c kv' by (simp add: join_Cons member_text_def quote_def)
    then obtain t where t: "join [0x2C] (map member_text kvs) = 0x22 # t" by blast
    let ?rest = "0x2C # 0x22 # (t @ 0x7D # r)"
    obtain qs where qs: "member_text (k, v) @ ?rest = 0x22 # qs"
      "unquote qs = Some (k, 0x3A # json_text v @ ?rest)"
      using member_text_unquote by blast
    have tx: "join [0x2C] (map member_text (kv # kvs)) @ 0x7D # r = 0x22 # qs"
      using False t qs(1) kv by (simp add: join_Cons)
    from Cons.prems(1)[OF _ sv lv, of k ?rest] kv
    have pv: "parse_value m' (d # (ds @ ?rest)) = Some (v, ?rest)" by (simp add: d)
    have len: "length (join [0x2C] (map member_text kvs)) < m'"
      using Cons.prems(4) m False by (simp add: join_Cons)
    have "parse_members m' (join [0x2C] (map member_text kvs) @ 0x7D # r) = Some (kvs, r)"
    proof (rule Cons.IH)
      show "parse_value n (json_text v @ r) = Some (v, r)"
        if "(k, v) \<in> set kvs" "storable v" "length (json_text v) \<le> n" for k v n r
        using that Cons.prems(1)[of k v n r] by simp
      show "list_all (\<lambda>(k, v). storable v) kvs" using Cons.prems(2) by simp
    qed (use False len in simp_all)
    then have rec: "parse_members m' (0x22 # (t @ 0x7D # r)) = Some (kvs, r)" by (simp add: t)
    have "parse_members (Suc m') (0x22 # qs) = cons_result (k, v) (parse_members m' (0x22 # (t @ 0x7D # r)))"
      using qs(2) d(2) pv by (intro pm_more[where d = d and ds = "ds @ ?rest"]) (simp_all add: d)
    then show ?thesis unfolding m tx rec using kv by (simp add: cons_result_def)
  qed
qed

lemma update_fresh: "k \<notin> fst ` set acc \<Longrightarrow> AList.update k v acc = acc @ [(k, v)]"
  by (induction acc) auto

lemma foldl_update_distinct:
  "distinct (map fst (acc @ kvs)) \<Longrightarrow>
   foldl (\<lambda>acc (k, v). AList.update k v acc) acc kvs = acc @ kvs"
proof (induction kvs arbitrary: acc)
  case Nil
  then show ?case by simp
next
  case (Cons kv kvs)
  obtain k v where kv: "kv = (k, v)" by (cases kv)
  from Cons.prems kv have fresh: "k \<notin> fst ` set acc" by auto
  have "distinct (map fst ((acc @ [(k, v)]) @ kvs))" using Cons.prems kv by simp
  from Cons.IH[OF this] show ?case using kv fresh by (simp add: update_fresh)
qed

lemma object_of_distinct: "distinct (map fst kvs) \<Longrightarrow> object_of kvs = Object kvs"
  using foldl_update_distinct[of "[]" kvs] by (simp add: object_of_def)

lemma storable_member_texts:
  "list_all (\<lambda>(k, v). storable v) kvs \<Longrightarrow>
   concat (map (\<lambda>(k, v). if v = Undefined then [] else [quote k @ [0x3A] @ json_text v]) kvs) =
   map member_text kvs"
  by (induction kvs) (auto simp: member_text_def)

lemma json_text_roundtrip:
  "storable v \<Longrightarrow> length (json_text v) \<le> n \<Longrightarrow> parse_value n (json_text v @ r) = Some (v, r)"
proof (induction v arbitrary: n r rule: json_text.induct)
  case 1
  then show ?case by simp
next
  case 2
  then obtain n' where "n = Suc n'" by (cases n) (auto simp: js_def)
  then show ?case by (simp only: json_text.simps pv_null)
next
  case (3 b)
  then obtain n' where "n = Suc n'" by (cases n) (auto simp: js_def split: if_splits)
  then show ?case by (cases b) (simp_all only: json_text.simps pv_true pv_false if_True if_False)
next
  case (4 n)
  then show ?case by simp
next
  case (5 s)
  then obtain n' where "n = Suc n'" by (cases n) (auto simp: quote_def)
  then show ?case by (simp only: json_text.simps pv_string)
next
  case (6 xs)
  from "6.prems"(2) obtain n' where n: "n = Suc n'" by (cases n) auto
  show ?case
  proof (cases "xs = []")
    case True
    then show ?thesis unfolding n by (simp add: pv_array_empty del: parse_value.simps)
  next
    case False
    then obtain c t where ct: "join [0x2C] (map json_text xs) = c # t" "starts_value c"
      using join_texts_starts by blast
    have len: "length (join [0x2C] (map json_text xs)) < n'" using "6.prems"(2) n by simp
    have "parse_elements n' (join [0x2C] (map json_text xs) @ 0x5D # r) = Some (xs, r)"
      using "6.IH" "6.prems"(1) False len by (intro elements_roundtrip) simp_all
    then have pe: "parse_elements n' (c # (t @ 0x5D # r)) = Some (xs, r)" by (simp add: ct)
    have "json_text (Array xs) @ r = 0x5B # c # (t @ 0x5D # r)" by (simp add: ct)
    then show ?thesis unfolding n by (simp only: pv_array[OF ct(2)] pe) simp
  qed
next
  case (7 kvs)
  from "7.prems"(2) obtain n' where n: "n = Suc n'" by (cases n) auto
  have st: "list_all (\<lambda>(k, v). storable v) kvs" and dist: "distinct (map fst kvs)"
    using "7.prems"(1) by simp_all
  have tx: "json_text (Object kvs) = 0x7B # join [0x2C] (map member_text kvs) @ [0x7D]"
    by (simp add: storable_member_texts[OF st])
  show ?case
  proof (cases "kvs = []")
    case True
    then show ?thesis unfolding n by (simp add: pv_object_empty del: parse_value.simps)
  next
    case False
    then obtain t where t: "join [0x2C] (map member_text kvs) = 0x22 # t"
      by (cases kvs) (auto simp: join_Cons member_text_def quote_def)
    have len: "length (join [0x2C] (map member_text kvs)) < n'"
      using "7.prems"(2) n unfolding tx by simp
    have ih: "parse_value n (json_text v @ r) = Some (v, r)"
      if "(k, v) \<in> set kvs" "storable v" "length (json_text v) \<le> n" for k v n r
    proof -
      from that(2) have "v \<noteq> Undefined" by auto
      with that "7.IH"[of "(k, v)" k v n r] show ?thesis by simp
    qed
    have "parse_members n' (join [0x2C] (map member_text kvs) @ 0x7D # r) = Some (kvs, r)"
      using ih st False len by (intro members_roundtrip) blast+
    then have pm: "parse_members n' (0x22 # (t @ 0x7D # r)) = Some (kvs, r)" by (simp add: t)
    have "json_text (Object kvs) @ r = 0x7B # 0x22 # (t @ 0x7D # r)" unfolding tx by (simp add: t)
    then show ?thesis unfolding n
      by (simp only: pv_object[OF refl] pm) (simp add: object_of_distinct[OF dist])
  qed
qed

lemma json_roundtrip: "storable v \<Longrightarrow> json_parse (json_stringify v) = Inr v"
proof -
  assume s: "storable v"
  then have nu: "v \<noteq> Undefined" by auto
  obtain c t where ct: "json_text v = c # t" "starts_value c" using json_text_starts by blast
  then have sk: "skip_ws (json_text v) = json_text v"
    using starts_value_plain[of c] by (simp add: skip_ws_Cons)
  from json_text_roundtrip[OF s, of "Suc (length (json_text v))" "[]"]
  have "parse_value (Suc (length (json_text v))) (json_text v) = Some (v, [])" by simp
  then show ?thesis using nu sk by (simp add: json_parse_def json_stringify_def skip_ws_def)
qed

lemma json_stringify_nonempty: "json_stringify v \<noteq> []"
  using json_text_starts[of v] by (auto simp: json_stringify_def js_def)

section \<open>Properties of the persistence adapter\<close>

text \<open>
  C4. \<open>getStoredData\<close> never throws: it always returns a value. When \<open>window\<close> is
  not defined, when reading the storage throws, when the key is absent or holds the
  empty text, and when \<open>JSON.parse\<close> throws on the stored text, the value is the
  empty object.
\<close>

theorem getStoredData_never_throws:
  "(\<exists>v. getStoredData p w = Inr v) \<and>
   ((\<not> has_window w \<or>
     (\<exists>e. getItem (localStorage w) STORAGE_KEY = Inl e) \<or>
     getItem (localStorage w) STORAGE_KEY = Inr None \<or>
     getItem (localStorage w) STORAGE_KEY = Inr (Some []) \<or>
     (\<exists>text e. getItem (localStorage w) STORAGE_KEY = Inr (Some text) \<and>
        JSON_parse p text = Inl e))
    \<longrightarrow> getStoredData p w = Inr (Object []))"
  by (auto simp: getStoredData_def try_catch_def bind_err_def split: sum.splits option.splits)

theorem getStoredData_never_throws_witness:
  "getItem (localStorage (sample_browser [STORAGE_KEY \<mapsto> js ''{not json''])) STORAGE_KEY =
     Inr (Some (js ''{not json'')) \<and>
   JSON_parse sample_platform (js ''{not json'') = Inl SyntaxError \<and>
   getStoredData sample_platform (sample_browser [STORAGE_KEY \<mapsto> js ''{not json'']) =
     Inr (Object [])"
proof -
  have bad: "JSON_parse sample_platform (js ''{not json'') = Inl SyntaxError"
    unfolding sample_platform_def by code_simp
  have item: "getItem (localStorage (sample_browser [STORAGE_KEY \<mapsto> js ''{not json''])) STORAGE_KEY =
     Inr (Some (js ''{not json''))"
    by (simp add: sample_browser_def getItem_def)
  show ?thesis
    using bad item
      getStoredData_never_throws[of sample_platform
        "sample_browser [STORAGE_KEY \<mapsto> js ''{not json'']"]
    by simp
qed

lemma getStoredData_absent:
  assumes "getItem (localStorage w) STORAGE_KEY = Inr None \<or>
           getItem (localStorage w) STORAGE_KEY = Inr (Some [])"
  shows "getStoredData p w = Inr (Object [])"
  using assms by (auto simp: getStoredData_def try_catch_def bind_err_def)

lemma getStoredData_parsed:
  assumes "has_window w" and "getItem (localStorage w) STORAGE_KEY = Inr (Some stored)"
    and "stored \<noteq> []" and "JSON_parse p stored = Inr v"
  shows "getStoredData p w = Inr v"
  using assms by (auto simp: getStoredData_def try_catch_def bind_err_def)

lemma sample_text_neq: "sample_text \<noteq> []"
  by (simp add: sample_text_def js_def)

lemma sample_absent_item:
  "getItem (localStorage (sample_browser Map.empty)) STORAGE_KEY = Inr None"
  by (simp add: sample_browser_def getItem_def)

lemma sample_stored_item:
  "has_window (sample_browser [STORAGE_KEY \<mapsto> sample_text])"
  "getItem (localStorage (sample_browser [STORAGE_KEY \<mapsto> sample_text])) STORAGE_KEY =
     Inr (Some sample_text)"
  by (simp_all add: sample_browser_def getItem_def)

lemma sample_parse: "JSON_parse sample_platform sample_text = Inr sample_data"
  unfolding sample_platform_def by code_simp

lemma sample_stored:
  "getStoredData sample_platform (sample_browser [STORAGE_KEY \<mapsto> sample_text]) = Inr sample_data"
  using sample_stored_item sample_text_neq sample_parse by (rule getStoredData_parsed)

lemma sample_props:
  "get_prop sample_data (js ''recipients'') = Inr (Array [String (js ''hr@example.com'')])"
  "get_prop sample_data (js ''subject'') = Inr (String (js ''Hi''))"
  "get_prop sample_data (js ''body'') = Inr (String (js ''Hello there, world''))"
  "get_prop sample_data (js ''resumeData'') =
     Inr (String (js ''data:application/pdf;base64,JVBERi0=''))"
  "get_prop sample_data (js ''resumeName'') = Inr (String (js ''resume.pdf''))"
  by (simp_all add: sample_data_def js_def)

lemma sample_truthy:
  "truthy (String (js ''Hi''))" "truthy (String (js ''Hello there, world''))"
  "truthy (String (js ''data:application/pdf;base64,JVBERi0=''))"
  "truthy (String (js ''resume.pdf''))"
  by (simp_all add: js_def)

lemma storable_draft_object: "storable (draft_object d)"
  by (cases "draft_resume d") (auto simp: draft_object_def js_def list_all_iff)

lemma load_after_save:
  assumes "JSON_parse p = json_parse" and "JSON_stringify p = json_stringify"
    and "has_window w"
    and "setItem (localStorage w) STORAGE_KEY (json_stringify data) = Inr ls"
    and "storable data"
  shows "getStoredData p (setStoredData p w data) = Inr data"
proof -
  from assms(4) have ls: "ls = (localStorage w)\<lparr>items := (items (localStorage w))(STORAGE_KEY \<mapsto> json_stringify data)\<rparr>"
    and ok: "\<not> access_denied (localStorage w)"
    by (auto simp: setItem_def split: if_splits)
  have saved: "setStoredData p w data = w\<lparr>localStorage := ls\<rparr>"
    using assms(2,3,4) by (simp add: setStoredData_def)
  have item: "getItem ls STORAGE_KEY = Inr (Some (json_stringify data))"
    using ok by (simp add: ls getItem_def)
  show ?thesis
    unfolding saved
    using assms(3) item json_stringify_nonempty[of data] json_roundtrip[OF assms(5)] assms(1)
    by (intro getStoredData_parsed[where stored = "json_stringify data"]) simp_all
qed

lemma draft_object_props:
  "get_prop (draft_object d) (js ''recipients'') = Inr (Array (map String (draft_recipients d)))"
  "get_prop (draft_object d) (js ''subject'') = Inr (String (draft_subject d))"
  "get_prop (draft_object d) (js ''body'') = Inr (String (draft_body d))"
  "get_prop (draft_object d) (js ''resumeData'') =
     Inr (case draft_resume d of None \<Rightarrow> Undefined | Some (resumeData, resumeName) \<Rightarrow> String resumeData)"
  "get_prop (draft_object d) (js ''resumeName'') =
     Inr (case draft_resume d of None \<Rightarrow> Undefined | Some (resumeData, resumeName) \<Rightarrow> String resumeName)"
  by (auto simp: draft_object_def js_def split: option.splits)

text \<open>
  C5. On a platform whose \<open>JSON.stringify\<close> and \<open>JSON.parse\<close> are the functions
  above, in a browser with a window, when \<open>setItem\<close> does not throw: saving the
  object of a draft and then loading gives that object back, and its properties are
  the recipients, the subject, the body and, when there is one, the data URL and the
  name of the file, as they are in the draft.
\<close>

theorem save_then_load:
  assumes "JSON_parse p = json_parse" and "JSON_stringify p = json_stringify"
    and "has_window w"
    and "setItem (localStorage w) STORAGE_KEY (json_stringify (draft_object d)) = Inr ls"
  shows "getStoredData p (setStoredData p w (draft_object d)) = Inr (draft_object d) \<and>
    get_prop (draft_object d) (js ''recipients'') =
      Inr (Array (map String (draft_recipients d))) \<and>
    get_prop (draft_object d) (js ''subject'') = Inr (String (draft_subject d)) \<and>
    get_prop (draft_object d) (js ''body'') = Inr (String (draft_body d)) \<and>
    get_prop (draft_object d) (js ''resumeData'') =
      Inr (case draft_resume d of None \<Rightarrow> Undefined
           | Some (resumeData, resumeName) \<Rightarrow> String resumeData) \<and>
    get_prop (draft_object d) (js ''resumeName'') =
      Inr (case draft_resume d of None \<Rightarrow> Undefined
           | Some (resumeData, resumeName) \<Rightarrow> String resumeName)"
  using load_after_save[OF assms storable_draft_object] draft_object_props[of d]
  by (simp only: simp_thms)

lemma sample_draft_object: "draft_object sample_draft = sample_data"
  by (simp add: draft_object_def sample_draft_def sample_data_def)

lemma sample_stringify: "json_stringify sample_data = sample_text"
  by code_simp

theorem save_then_load_witness:
  "JSON_parse sample_platform = json_parse \<and> JSON_stringify sample_platform = json_stringify \<and>
   has_window (sample_browser Map.empty) \<and>
   setItem (localStorage (sample_browser Map.empty)) STORAGE_KEY
       (json_stringify (draft_object sample_draft)) =
     Inr \<lparr>items = [STORAGE_KEY \<mapsto> sample_text], access_denied = False, quota = 5000000\<rparr> \<and>
   getStoredData sample_platform
       (setStoredData sample_platform (sample_browser Map.empty) (draft_object sample_draft)) =
     Inr sample_data"
proof -
  have p: "JSON_parse sample_platform = json_parse" "JSON_stringify sample_platform = json_stringify"
    by (simp_all add: sample_platform_def)
  have w: "has_window (sample_browser Map.empty)" by (simp add: sample_browser_def)
  have len: "length STORAGE_KEY + length sample_text \<le> 5000000"
    by (simp add: STORAGE_KEY_def sample_text_def js_def)
  have s: "setItem (localStorage (sample_browser Map.empty)) STORAGE_KEY
       (json_stringify (draft_object sample_draft)) =
     Inr \<lparr>items = [STORAGE_KEY \<mapsto> sample_text], access_denied = False, quota = 5000000\<rparr>"
    using len by (simp add: sample_draft_object sample_stringify sample_browser_def setItem_def)
  show ?thesis
    using p w s save_then_load[OF p w s] by (simp add: sample_draft_object)
qed

section \<open>Properties of the email form\<close>

lemma TagInput_first_render_falsy: "\<not> truthy r \<Longrightarrow> TagInput_first_render (js_or r (Array [])) = Inr (Array [])"
  by (simp add: TagInput_first_render_def js_or_def)

lemma TagInput_first_render_strings:
  "TagInput_first_render (js_or (Array (map String rs)) (Array [])) = Inr (Array (map String rs))"
  by (simp add: TagInput_first_render_def js_or_def list_all_iff)

lemma TagInput_first_render_not_array:
  "truthy r \<Longrightarrow> (\<And>xs. r \<noteq> Array xs) \<Longrightarrow> TagInput_first_render (js_or r (Array [])) = Inl TypeError"
  by (cases r) (auto simp: TagInput_first_render_def js_or_def)

lemma mount_Object:
  assumes "getStoredData p w = Inr (Object kvs)"
    and "get_prop (Object kvs) (js ''recipients'') = Inr r"
    and "get_prop (Object kvs) (js ''subject'') = Inr sj"
    and "get_prop (Object kvs) (js ''body'') = Inr b"
    and "get_prop (Object kvs) (js ''resumeData'') = Inr d"
    and "get_prop (Object kvs) (js ''resumeName'') = Inr n"
    and "\<not> truthy r \<or> r = Array (map String rs)"
    and "\<not> (truthy d \<and> truthy n) \<or> n = String nm"
  shows "mount p w =
     Inr (\<lparr>recipients = (if truthy r then r else Array []),
           subject = (if truthy sj then sj else String DEFAULT_SUBJECT),
           body = (if truthy b then b else String DEFAULT_BODY),
           resume = Undefined\<rparr>,
          (if truthy d \<and> truthy n then n else Null))"
proof -
  have dv: "defaultValues (Object kvs) =
      Inr \<lparr>recipients = js_or r (Array []), subject = js_or sj (String DEFAULT_SUBJECT),
           body = js_or b (String DEFAULT_BODY), resume = Undefined\<rparr>"
    using assms(2-4) by (simp add: defaultValues_def bind_err_def del: get_prop.simps)
  have first: "TagInput_first_render (js_or r (Array [])) = Inr (js_or r (Array []))"
  proof (cases "truthy r")
    case True
    with assms(7) have r: "r = Array (map String rs)" by simp
    show ?thesis unfolding r by (simp add: TagInput_first_render_strings) (simp add: js_or_def)
  next
    case False
    then show ?thesis by (simp add: TagInput_first_render_falsy) (simp add: js_or_def)
  qed
  have name: "storedFileName_at_mount (Object kvs) = Inr (if truthy d \<and> truthy n then n else Null)"
    using assms(5,6)
    by (simp add: storedFileName_at_mount_def bind_err_def js_and_def del: get_prop.simps)
  have shown: "storedFileName_render (if truthy d \<and> truthy n then n else Null) = Inr ()"
    using assms(8) by (auto simp: storedFileName_render_def)
  have "mount p w =
     Inr (\<lparr>recipients = js_or r (Array []), subject = js_or sj (String DEFAULT_SUBJECT),
           body = js_or b (String DEFAULT_BODY), resume = Undefined\<rparr>,
          (if truthy d \<and> truthy n then n else Null))"
    unfolding mount_def assms(1)
    by (simp add: bind_err_def dv first name shown)
  then show ?thesis by (simp add: js_or_def)
qed

lemma mount_absent:
  assumes "getItem (localStorage w) STORAGE_KEY = Inr None \<or>
           getItem (localStorage w) STORAGE_KEY = Inr (Some [])"
  shows "mount p w =
     Inr (\<lparr>recipients = Array [], subject = String DEFAULT_SUBJECT,
           body = String DEFAULT_BODY, resume = Undefined\<rparr>, Null)"
proof -
  from assms have "getStoredData p w = Inr (Object [])" by (rule getStoredData_absent)
  from mount_Object[OF this, of Undefined Undefined Undefined Undefined Undefined]
  show ?thesis by simp
qed

text \<open>
  With a stored \<open>recipients\<close> that is truthy and not an array, the first render of
  the tag input throws and no form is mounted.
\<close>

lemma mount_recipients_not_array:
  assumes "getStoredData p w = Inr (Object kvs)"
    and "get_prop (Object kvs) (js ''recipients'') = Inr r"
    and "truthy r" and "\<And>xs. r \<noteq> Array xs"
  shows "mount p w = Inl TypeError"
proof -
  obtain sj b where
    dv: "defaultValues (Object kvs) =
      Inr \<lparr>recipients = js_or r (Array []), subject = js_or sj (String DEFAULT_SUBJECT),
           body = js_or b (String DEFAULT_BODY), resume = Undefined\<rparr>"
    using assms(2) by (simp add: defaultValues_def bind_err_def)
  show ?thesis
    unfolding mount_def assms(1)
    by (simp add: bind_err_def dv TagInput_first_render_not_array[OF assms(3,4)])
qed

lemma mount_recipients_string:
  "mount sample_platform (sample_browser [STORAGE_KEY \<mapsto> recipients_string_text]) =
     Inl TypeError"
proof -
  have parsed: "JSON_parse sample_platform recipients_string_text =
      Inr (Object [(js ''recipients'', String (js ''x@y.zz''))])"
    unfolding sample_platform_def by code_simp
  have "getStoredData sample_platform (sample_browser [STORAGE_KEY \<mapsto> recipients_string_text]) =
      Inr (Object [(js ''recipients'', String (js ''x@y.zz''))])"
    using parsed
    by (intro getStoredData_parsed[where stored = recipients_string_text])
       (simp_all add: sample_browser_def getItem_def recipients_string_text_def js_def)
  then show ?thesis
    by (rule mount_recipients_not_array[where r = "String (js ''x@y.zz'')"])
       (simp_all add: js_def)
qed

text \<open>
  C9 (as the spec states it: at mount the Draft is empty when the storage slot is
  absent, and is otherwise restored field for field). With nothing stored under the
  key, the form is not created with an empty subject and an empty body. With a
  stored object whose \<open>subject\<close> is the empty string (what the auto-save effect stores
  once the subject field has been emptied), the form's subject is not the stored one
  but the default.
\<close>

theorem mount_neither_empty_nor_restored:
  "getItem (localStorage (sample_browser Map.empty)) STORAGE_KEY = Inr None \<and>
   mount sample_platform (sample_browser Map.empty) \<noteq>
     Inr (\<lparr>recipients = Array [], subject = String [], body = String [],
           resume = Undefined\<rparr>, Null) \<and>
   getStoredData sample_platform (sample_browser [STORAGE_KEY \<mapsto> empty_subject_text]) =
     Inr (Object [(js ''subject'', String []),
                  (js ''body'', String (js ''Hello there, world'')),
                  (js ''recipients'', Array [String (js ''hr@example.com'')])]) \<and>
   mount sample_platform (sample_browser [STORAGE_KEY \<mapsto> empty_subject_text]) =
     Inr (\<lparr>recipients = Array [String (js ''hr@example.com'')],
           subject = String DEFAULT_SUBJECT,
           body = String (js ''Hello there, world''),
           resume = Undefined\<rparr>, Null) \<and>
   String DEFAULT_SUBJECT \<noteq> String []"
proof -
  let ?stored = "Object [(js ''subject'', String []),
                  (js ''body'', String (js ''Hello there, world'')),
                  (js ''recipients'', Array [String (js ''hr@example.com'')])]"
  have ne: "DEFAULT_SUBJECT \<noteq> []" by (simp add: DEFAULT_SUBJECT_def js_def)
  have parsed: "JSON_parse sample_platform empty_subject_text = Inr ?stored"
    unfolding sample_platform_def by code_simp
  have stored: "getStoredData sample_platform
      (sample_browser [STORAGE_KEY \<mapsto> empty_subject_text]) = Inr ?stored"
    using parsed
    by (intro getStoredData_parsed[where stored = empty_subject_text])
       (simp_all add: sample_browser_def getItem_def empty_subject_text_def js_def)
  have props:
    "get_prop ?stored (js ''recipients'') = Inr (Array [String (js ''hr@example.com'')])"
    "get_prop ?stored (js ''subject'') = Inr (String [])"
    "get_prop ?stored (js ''body'') = Inr (String (js ''Hello there, world''))"
    "get_prop ?stored (js ''resumeData'') = Inr Undefined"
    "get_prop ?stored (js ''resumeName'') = Inr Undefined"
    by (simp_all add: js_def)
  have "mount sample_platform (sample_browser [STORAGE_KEY \<mapsto> empty_subject_text]) =
     Inr (\<lparr>recipients = Array [String (js ''hr@example.com'')],
           subject = String DEFAULT_SUBJECT,
           body = String (js ''Hello there, world''),
           resume = Undefined\<rparr>, Null)"
    using mount_Object[OF stored props, of "[js ''hr@example.com'']" "[]"] sample_truthy(2)
    by simp
  then show ?thesis
    using ne stored sample_absent_item
      mount_absent[of "sample_browser Map.empty" sample_platform]
    by simp
qed

text \<open>
  C9 (amended). At mount, when the storage slot is absent or holds the empty text,
  the form starts with no recipients, the subject \<open>ReactJS Developer Application\<close>, the
  default body, no file, and no stored file name. When the slot holds the JSON text of
  an object whose \<open>recipients\<close> is falsy (absent, say) or an array of strings, and
  whose \<open>resumeName\<close> is a string when it is stored together with \<open>resumeData\<close>:
  \<open>recipients\<close>, \<open>subject\<close> and \<open>body\<close> are each the stored property when it is
  truthy (present, and not empty for a string) and the default otherwise; \<open>resume\<close>
  is \<open>undefined\<close> in every case, and the stored file name is the stored
  \<open>resumeName\<close> when both \<open>resumeData\<close> and \<open>resumeName\<close> are truthy.
\<close>

theorem mount_defaults_or_stored:
  "((getItem (localStorage w) STORAGE_KEY = Inr None \<or>
     getItem (localStorage w) STORAGE_KEY = Inr (Some [])) \<longrightarrow>
      mount p w =
        Inr (\<lparr>recipients = Array [], subject = String DEFAULT_SUBJECT,
              body = String DEFAULT_BODY, resume = Undefined\<rparr>, Null)) \<and>
   (has_window w \<and> getItem (localStorage w) STORAGE_KEY = Inr (Some stored) \<and> stored \<noteq> [] \<and>
    JSON_parse p stored = Inr (Object kvs) \<and>
    get_prop (Object kvs) (js ''recipients'') = Inr r \<and>
    get_prop (Object kvs) (js ''subject'') = Inr sj \<and>
    get_prop (Object kvs) (js ''body'') = Inr b \<and>
    get_prop (Object kvs) (js ''resumeData'') = Inr d \<and>
    get_prop (Object kvs) (js ''resumeName'') = Inr n \<and>
    (\<not> truthy r \<or> r = Array (map String rs)) \<and>
    (\<not> (truthy d \<and> truthy n) \<or> n = String nm) \<longrightarrow>
      mount p w =
        Inr (\<lparr>recipients = (if truthy r then r else Array []),
              subject = (if truthy sj then sj else String DEFAULT_SUBJECT),
              body = (if truthy b then b else String DEFAULT_BODY),
              resume = Undefined\<rparr>,
             (if truthy d \<and> truthy n then n else Null)))"
proof (intro conjI impI)
  assume "getItem (localStorage w) STORAGE_KEY = Inr None \<or>
          getItem (localStorage w) STORAGE_KEY = Inr (Some [])"
  then show "mount p w =
        Inr (\<lparr>recipients = Array [], subject = String DEFAULT_SUBJECT,
              body = String DEFAULT_BODY, resume = Undefined\<rparr>, Null)"
    by (rule mount_absent)
next
  assume h: "has_window w \<and> getItem (localStorage w) STORAGE_KEY = Inr (Some stored) \<and>
    stored \<noteq> [] \<and> JSON_parse p stored = Inr (Object kvs) \<and>
    get_prop (Object kvs) (js ''recipients'') = Inr r \<and>
    get_prop (Object kvs) (js ''subject'') = Inr sj \<and>
    get_prop (Object kvs) (js ''body'') = Inr b \<and>
    get_prop (Object kvs) (js ''resumeData'') = Inr d \<and>
    get_prop (Object kvs) (js ''resumeName'') = Inr n \<and>
    (\<not> truthy r \<or> r = Array (map String rs)) \<and>
    (\<not> (truthy d \<and> truthy n) \<or> n = String nm)"
  then have "getStoredData p w = Inr (Object kvs)"
    by (intro getStoredData_parsed[of w stored]) simp_all
  from mount_Object[OF this, of r sj b d n rs nm] h
  show "mount p w =
        Inr (\<lparr>recipients = (if truthy r then r else Array []),
              subject = (if truthy sj then sj else String DEFAULT_SUBJECT),
              body = (if truthy b then b else String DEFAULT_BODY),
              resume = Undefined\<rparr>,
             (if truthy d \<and> truthy n then n else Null))"
    by blast
qed

theorem mount_defaults_or_stored_witness:
  "getItem (localStorage (sample_browser Map.empty)) STORAGE_KEY = Inr None \<and>
   mount sample_platform (sample_browser Map.empty) =
     Inr (\<lparr>recipients = Array [], subject = String DEFAULT_SUBJECT,
           body = String DEFAULT_BODY, resume = Undefined\<rparr>, Null) \<and>
   has_window (sample_browser [STORAGE_KEY \<mapsto> sample_text]) \<and>
   getItem (localStorage (sample_browser [STORAGE_KEY \<mapsto> sample_text])) STORAGE_KEY =
     Inr (Some sample_text) \<and>
   sample_text \<noteq> [] \<and>
   JSON_parse sample_platform sample_text = Inr sample_data \<and>
   get_prop sample_data (js ''recipients'') = Inr (Array (map String [js ''hr@example.com''])) \<and>
   get_prop sample_data (js ''resumeName'') = Inr (String (js ''resume.pdf'')) \<and>
   mount sample_platform (sample_browser [STORAGE_KEY \<mapsto> sample_text]) =
     Inr (\<lparr>recipients = Array [String (js ''hr@example.com'')], subject = String (js ''Hi''),
           body = String (js ''Hello there, world''), resume = Undefined\<rparr>,
          String (js ''resume.pdf''))"
proof -
  obtain kvs where k: "sample_data = Object kvs" by (simp add: sample_data_def)
  show ?thesis
    using mount_defaults_or_stored[where w = "sample_browser Map.empty" and p = sample_platform]
      mount_defaults_or_stored[where w = "sample_browser [STORAGE_KEY \<mapsto> sample_text]"
         and stored = sample_text and p = sample_platform and kvs = kvs
         and r = "Array [String (js ''hr@example.com'')]" and sj = "String (js ''Hi'')"
         and b = "String (js ''Hello there, world'')"
         and d = "String (js ''data:application/pdf;base64,JVBERi0='')"
         and n = "String (js ''resume.pdf'')"
         and rs = "[js ''hr@example.com'']" and nm = "js ''resume.pdf''"]
      sample_absent_item sample_stored_item sample_parse sample_props sample_truthy
      sample_text_neq
    unfolding k by simp
qed

lemma text_fields_no_resume: "map_of (text_fields a d) (js ''resume'') = None"
  by (simp add: text_fields_def js_def)

lemma click_fetch:
  assumes "\<not> isPending s" and "formSchema p (form_values s)"
    and "chosen_file (resume (form_values s)) = None"
    and "getStoredData p (win s) = Inr storedData"
    and "get_prop storedData (js ''resumeData'') = Inr resumeData"
    and "get_prop storedData (js ''resumeName'') = Inr resumeName"
    and "truthy resumeData" and "truthy resumeName"
  shows "click_send p a s =
     s\<lparr>fetching := fetching s @
          [\<lparr>url = resumeData, name = resumeName, formData = text_fields a (form_values s)\<rparr>]\<rparr>"
  using assms by (simp add: click_send_def onSubmit_def bind_err_def js_and_def)

lemma click_plain:
  assumes "\<not> isPending s" and "formSchema p (form_values s)"
    and "chosen_file (resume (form_values s)) = None"
    and "getStoredData p (win s) = Inr storedData"
    and "get_prop storedData (js ''resumeData'') = Inr resumeData"
    and "get_prop storedData (js ''resumeName'') = Inr resumeName"
    and "\<not> truthy resumeData \<or> \<not> truthy resumeName"
  shows "click_send p a s = mutate (text_fields a (form_values s)) s"
  using assms by (auto simp add: click_send_def onSubmit_def bind_err_def js_and_def)

lemma sample_form_facts:
  "\<not> isPending sample_form"
  "formSchema sample_platform (form_values sample_form)"
  "chosen_file (resume (form_values sample_form)) = None"
  by (simp_all add: isPending_def formSchema_def sample_form_def sample_platform_def js_def)

lemma sample_form_stored: "getStoredData sample_platform (win sample_form) = Inr sample_data"
  by (simp add: sample_form_def sample_stored)

lemma sample_fetch:
  "fetch_blob sample_platform (String (js ''data:application/pdf;base64,JVBERi0='')) =
     Some [0x25, 0x50, 0x44, 0x46, 0x2D]"
  by (simp add: sample_platform_def)

lemma sample_click:
  "click_send sample_platform sample_auth sample_form =
     sample_form\<lparr>fetching :=
       [\<lparr>url = String (js ''data:application/pdf;base64,JVBERi0=''),
         name = String (js ''resume.pdf''),
         formData = text_fields sample_auth (form_values sample_form)\<rparr>]\<rparr>"
  using click_fetch[OF sample_form_facts sample_form_stored sample_props(4,5) sample_truthy(3,4),
      of sample_auth]
  by (simp add: sample_form_def)

lemma sample_click_again:
  "click_send sample_platform sample_auth (sample_form\<lparr>fetching := ts\<rparr>) =
     sample_form\<lparr>fetching := ts @
       [\<lparr>url = String (js ''data:application/pdf;base64,JVBERi0=''),
         name = String (js ''resume.pdf''),
         formData = text_fields sample_auth (form_values sample_form)\<rparr>]\<rparr>"
  using click_fetch[of "sample_form\<lparr>fetching := ts\<rparr>" sample_platform sample_data _ _ sample_auth,
      OF _ _ _ _ sample_props(4,5) sample_truthy(3,4)]
    sample_form_facts sample_form_stored
  by (simp add: isPending_def)

text \<open>
  C6. Take a click on the send button of an idle form whose values pass the schema,
  with no file chosen, and let \<open>resumeData\<close> and \<open>resumeName\<close> be the two
  properties of the stored data. If \<open>resumeData\<close> is truthy, \<open>resumeName\<close> is
  \<open>resume.pdf\<close> and the fetch of \<open>resumeData\<close> resolves with a blob, then once that
  fetch has settled the payload given to the mutation is the five text fields followed
  by a \<open>resume\<close> entry: a file named \<open>resume.pdf\<close> with the blob's bytes. If one of
  the two properties is absent (or falsy in any other way), the click itself gives the
  mutation the five text fields only, with no \<open>resume\<close> entry, and starts no fetch.
\<close>

theorem onSubmit_stored_resume:
  assumes "\<not> isPending s" and "formSchema p (form_values s)"
    and "chosen_file (resume (form_values s)) = None"
    and "getStoredData p (win s) = Inr storedData"
    and "get_prop storedData (js ''resumeData'') = Inr resumeData"
    and "get_prop storedData (js ''resumeName'') = Inr resumeName"
  shows
    "(truthy resumeData \<and> resumeName = String (js ''resume.pdf'') \<and>
      fetch_blob p resumeData = Some b \<longrightarrow>
        in_flight (run p a s [ClickSend, FetchSettled (length (fetching s))]) =
          in_flight s @
            [(calls s,
              text_fields a (form_values s) @
                [(js ''resume'',
                  FileEntry \<lparr>file_name = String (js ''resume.pdf''),
                             file_type = js ''application/pdf'', file_bits = b\<rparr>)])]) \<and>
     (\<not> truthy resumeData \<or> \<not> truthy resumeName \<longrightarrow>
        in_flight (run p a s [ClickSend]) =
          in_flight s @ [(calls s, text_fields a (form_values s))] \<and>
        fetching (run p a s [ClickSend]) = fetching s \<and>
        map_of (text_fields a (form_values s)) (js ''resume'') = None)"
proof (intro conjI impI)
  assume h: "truthy resumeData \<and> resumeName = String (js ''resume.pdf'') \<and>
    fetch_blob p resumeData = Some b"
  then have tn: "truthy resumeName" by (simp add: js_def)
  show "in_flight (run p a s [ClickSend, FetchSettled (length (fetching s))]) =
          in_flight s @
            [(calls s,
              text_fields a (form_values s) @
                [(js ''resume'',
                  FileEntry \<lparr>file_name = String (js ''resume.pdf''),
                             file_type = js ''application/pdf'', file_bits = b\<rparr>)])]"
    using h click_fetch[OF assms _ tn, of a]
    by (simp add: run_def fetch_settled_def Let_def drop_nth_def mutate_def append_decoded_def)
next
  assume h: "\<not> truthy resumeData \<or> \<not> truthy resumeName"
  show "in_flight (run p a s [ClickSend]) =
          in_flight s @ [(calls s, text_fields a (form_values s))]"
    using click_plain[OF assms h, of a] by (simp add: run_def mutate_def)
  show "fetching (run p a s [ClickSend]) = fetching s"
    using click_plain[OF assms h, of a] by (simp add: run_def mutate_def)
  show "map_of (text_fields a (form_values s)) (js ''resume'') = None"
    by (rule text_fields_no_resume)
qed

theorem onSubmit_stored_resume_witness:
  "\<not> isPending sample_form \<and> formSchema sample_platform (form_values sample_form) \<and>
   chosen_file (resume (form_values sample_form)) = None \<and>
   getStoredData sample_platform (win sample_form) = Inr sample_data \<and>
   get_prop sample_data (js ''resumeData'') =
     Inr (String (js ''data:application/pdf;base64,JVBERi0='')) \<and>
   get_prop sample_data (js ''resumeName'') = Inr (String (js ''resume.pdf'')) \<and>
   truthy (String (js ''data:application/pdf;base64,JVBERi0='')) \<and>
   fetch_blob sample_platform (String (js ''data:application/pdf;base64,JVBERi0='')) =
     Some [0x25, 0x50, 0x44, 0x46, 0x2D] \<and>
   in_flight (run sample_platform sample_auth sample_form [ClickSend, FetchSettled 0]) =
     [(0,
       text_fields sample_auth (form_values sample_form) @
         [(js ''resume'',
           FileEntry \<lparr>file_name = String (js ''resume.pdf''), file_type = js ''application/pdf'',
                      file_bits = [0x25, 0x50, 0x44, 0x46, 0x2D]\<rparr>)])]"
proof -
  have e: "fetching sample_form = []" "in_flight sample_form = []" "calls sample_form = 0"
    by (simp_all add: sample_form_def)
  show ?thesis
    using onSubmit_stored_resume[OF sample_form_facts sample_form_stored sample_props(4,5),
          of "[0x25, 0x50, 0x44, 0x46, 0x2D]" sample_auth]
      sample_form_facts sample_form_stored sample_props(4,5) sample_fetch sample_truthy(3) e
    by simp
qed

text \<open>While the mutation is pending, a click on the send button does nothing.\<close>

lemma click_send_pending: "isPending s \<Longrightarrow> click_send p a s = s"
  by (simp add: click_send_def)

text \<open>
  C7 (fails on the code). The button is disabled by \<open>mutation.isPending\<close> only, and
  with a stored attachment \<open>onSubmit\<close> calls \<open>mutate\<close> after the fetch of the data
  URL, not before it returns. Two clicks before the first fetch settles are both
  accepted, and each ends in a send: after the first fetch a send is in flight
  and the mutation is pending, and the second fetch then issues a second send.
\<close>

theorem two_sends_in_flight:
  "let s2 = run sample_platform sample_auth sample_form [ClickSend, ClickSend];
       s3 = step sample_platform sample_auth s2 (FetchSettled 0);
       s4 = step sample_platform sample_auth s3 (FetchSettled 0)
   in \<not> isPending s2 \<and> length (fetching s2) = 2 \<and>
      isPending s3 \<and> map fst (in_flight s3) = [0] \<and>
      isPending s4 \<and> map fst (in_flight s4) = [0, 1]"
proof -
  let ?t = "\<lparr>url = String (js ''data:application/pdf;base64,JVBERi0=''),
             name = String (js ''resume.pdf''),
             formData = text_fields sample_auth (form_values sample_form)\<rparr>"
  have e: "in_flight sample_form = []" "calls sample_form = 0" by (simp_all add: sample_form_def)
  have r2: "run sample_platform sample_auth sample_form [ClickSend, ClickSend] =
      sample_form\<lparr>fetching := [?t, ?t]\<rparr>"
    using sample_click_again[of "[?t]"] by (simp add: run_def sample_click)
  show ?thesis
    unfolding r2 Let_def
    using sample_form_facts(1) sample_fetch e
    by (simp add: fetch_settled_def Let_def drop_nth_def mutate_def isPending_def)
qed

lemma step_frame: "form_values (step p a s ev) = form_values s \<and> win (step p a s ev) = win s"
  by (cases ev)
     (auto simp: click_send_def fetch_settled_def send_settled_def mutate_def Let_def
           split: sum.splits submit_action.splits option.splits)

lemma run_frame: "form_values (run p a s evs) = form_values s \<and> win (run p a s evs) = win s"
  unfolding run_def
  by (induction evs arbitrary: s) (simp_all add: step_frame)

text \<open>
  C8. Whatever clicks on the send button, settled fetches and settled sends (with
  success or with failure) take place, the form's values and the browser with its
  storage stay as they were, so \<open>getStoredData\<close> reads what it read before. When the
  latest send settles, with success or with failure, the mutation is no longer
  pending: the button is enabled again, with the same values behind it.
\<close>

theorem submission_leaves_draft_and_storage:
  "form_values (run p a s evs) = form_values s \<and>
   win (run p a s evs) = win s \<and>
   getStoredData p (win (run p a s evs)) = getStoredData p (win s) \<and>
   (Suc i = calls s \<and> i \<in> fst ` set (in_flight s) \<longrightarrow>
      \<not> isPending (step p a s (SendSettled i ok)))"
  by (auto simp: run_frame send_settled_def isPending_def)

theorem submission_leaves_draft_and_storage_witness:
  "Suc 0 = calls (run sample_platform sample_auth sample_form [ClickSend, FetchSettled 0]) \<and>
   0 \<in> fst ` set (in_flight
                   (run sample_platform sample_auth sample_form [ClickSend, FetchSettled 0])) \<and>
   isPending (run sample_platform sample_auth sample_form [ClickSend, FetchSettled 0]) \<and>
   \<not> isPending
       (step sample_platform sample_auth
          (run sample_platform sample_auth sample_form [ClickSend, FetchSettled 0])
          (SendSettled 0 False)) \<and>
   form_values (run sample_platform sample_auth sample_form
                  [ClickSend, FetchSettled 0, SendSettled 0 False]) =
     form_values sample_form \<and>
   win (run sample_platform sample_auth sample_form
          [ClickSend, FetchSettled 0, SendSettled 0 False]) =
     win sample_form"
proof -
  let ?s = "run sample_platform sample_auth sample_form [ClickSend, FetchSettled 0]"
  have e: "in_flight sample_form = []" "calls sample_form = 0"
    by (simp_all add: sample_form_def)
  have sent: "Suc 0 = calls ?s" "0 \<in> fst ` set (in_flight ?s)" "isPending ?s"
    using sample_fetch e
    by (simp_all add: run_def sample_click fetch_settled_def Let_def drop_nth_def mutate_def
          isPending_def)
  show ?thesis
    using sent
      submission_leaves_draft_and_storage[of sample_platform sample_auth sample_form
        "[ClickSend, FetchSettled 0, SendSettled 0 False]"]
      submission_leaves_draft_and_storage[of sample_platform sample_auth ?s "[]" 0 False]
    by simp
qed

end
